theory Spec2Isabelle
  imports Complex_Main "HOL-Library.Signed_Division" "HOL-Library.Multiset"
begin

section \<open>Common JavaScript notions\<close>

text \<open>
  This theory embeds the two Spinner widgets of the repository: the
  RenderController-based one (ticks, self-rescheduling \<open>Timer.setTimeout\<close>; every name
  of it carries the suffix \<open>A\<close> where the two widgets collide) and the View-based one of
  \<open>src/Spinner.js\<close> (lines, \<open>Timer.setInterval\<close>, \<open>fade\<close>, \<open>reset\<close>; suffix \<open>B\<close>).

  JavaScript numbers are modelled by \<open>real\<close> (opacities, angles) and by \<open>nat\<close>/\<open>int\<close>
  (loop indices, counts, the tick counter), that is, the arithmetic is the exact one and
  rounding of IEEE doubles is not modelled; in particular the tick counter of widget B
  counts on beyond \<open>2^53\<close>. Callbacks handed in by the caller are opaque: invoking one is
  recorded in a log and has no other effect on the widget.
\<close>

datatype error = TypeError

text \<open>
  Angles are kept as multiples of \<open>Math.PI\<close>, in radians: \<open>PiTimes c\<close> is \<open>c * Math.PI\<close>.
  \<open>Math.cos\<close> and \<open>Math.sin\<close> are not evaluated either: the transform
  \<open>Transform.translate(r * Math.cos(a), r * Math.sin(a), 0)\<close> is \<open>TranslateOnCircle r a\<close>.
\<close>

datatype angle = PiTimes real

datatype transform =
  RotateZ angle
| Translate real real real
| TranslateOnCircle real angle

text \<open>\<open>Math.round\<close>: the nearest integer, halves rounded up.\<close>

definition Math_round :: "real \<Rightarrow> real" where
  "Math_round x = of_int \<lfloor>x + 1 / 2\<rfloor>"

text \<open>
  A counted loop \<open>for (var i = 0; i < n; i++) body(i)\<close> over a piece of state, where the
  body may raise: the loop stops at the first exception.
\<close>

fun forLoop :: "nat list \<Rightarrow> (nat \<Rightarrow> 's \<Rightarrow> error + 's) \<Rightarrow> 's \<Rightarrow> error + 's" where
  "forLoop [] body s = Inr s"
| "forLoop (i # is) body s =
     (case body i s of Inl e \<Rightarrow> Inl e | Inr s' \<Rightarrow> forLoop is body s')"

section \<open>Widget A: the RenderController spinner (ticks)\<close>

datatype run_state = OFF | ON

record optionsA =
  size_opt :: "real \<times> real"
  ticks :: nat
  speed :: nat
  originCompensation :: bool
  color :: string

text \<open>The object a caller passes to the constructor: every option may be left out.\<close>

record overridesA =
  o_size :: "(real \<times> real) option"
  o_ticks :: "nat option"
  o_speed :: "nat option"
  o_originCompensation :: "bool option"
  o_color :: "string option"

definition DEFAULT_OPTIONS_A :: optionsA where
  "DEFAULT_OPTIONS_A =
     \<lparr>size_opt = (30, 30), ticks = 12, speed = 100, originCompensation = False,
      color = ''grey''\<rparr>"

definition setOptions :: "overridesA \<Rightarrow> optionsA \<Rightarrow> optionsA" where
  "setOptions ov opts =
     (let opts = (case o_size ov of None \<Rightarrow> opts | Some v \<Rightarrow> opts\<lparr>size_opt := v\<rparr>);
          opts = (case o_ticks ov of None \<Rightarrow> opts | Some v \<Rightarrow> opts\<lparr>ticks := v\<rparr>);
          opts = (case o_speed ov of None \<Rightarrow> opts | Some v \<Rightarrow> opts\<lparr>speed := v\<rparr>);
          opts = (case o_originCompensation ov of None \<Rightarrow> opts
                  | Some v \<Rightarrow> opts\<lparr>originCompensation := v\<rparr>);
          opts = (case o_color ov of None \<Rightarrow> opts | Some v \<Rightarrow> opts\<lparr>color := v\<rparr>)
      in opts)"

text \<open>
  A \<open>StateModifier\<close> of the framework, as far as the widget uses it: a transform fixed
  at construction and an opacity that \<open>setOpacity\<close> overwrites.
\<close>

record state_modifier =
  sm_transform :: transform
  sm_opacity :: real

text \<open>
  One chain \<open>renderNode.add(opacityModifier).add(rotationModifier).add(surface)\<close>. The
  opacity modifier is shared with the array \<open>tickOpacityModifiers\<close>, so it is a reference
  into the store; the rotation modifier and the surface are reachable from the chain only.
\<close>

record tick_chain =
  tc_opacityModifier :: nat
  tc_rotationModifier :: transform
  tc_surface_size :: "real \<times> real"
  tc_surface_color :: string

record spinnerA =
  options :: optionsA
  spinnerState :: run_state
  tickOpacityModifiers :: "nat list"
  store :: "nat \<rightharpoonup> state_modifier"
  renderNode :: "tick_chain list"
  shown :: bool
  timeouts :: nat

text \<open>
  \<open>shown\<close> is what \<open>show(renderNode)\<close> and \<open>hide(renderNode)\<close> of the RenderController
  leave behind; \<open>timeouts\<close> counts the one-shot timers \<open>Timer.setTimeout(incrementSpinner)\<close>
  that are scheduled and have not fired yet (their handles are dropped by the source, so no
  one can cancel them).
\<close>

definition tickWidth :: "optionsA \<Rightarrow> real" where
  "tickWidth opts = Math_round (fst (size_opt opts) * 0.05)"

definition tickHeight :: "optionsA \<Rightarrow> real" where
  "tickHeight opts = Math_round (snd (size_opt opts) * 0.3)"

definition angleIncrement :: "optionsA \<Rightarrow> real" where
  "angleIncrement opts = 360 / real (ticks opts)"

text \<open>\<open>(originCompensation && (tickHeight / 2)) || 0\<close>\<close>

definition radiusCompensation :: "optionsA \<Rightarrow> real" where
  "radiusCompensation opts = (if originCompensation opts then tickHeight opts / 2 else 0)"

definition circleRadius :: "optionsA \<Rightarrow> real" where
  "circleRadius opts = fst (size_opt opts) * 0.55 - radiusCompensation opts"

text \<open>The angular position of tick \<open>i\<close> in degrees, \<open>angleIncrement * i\<close>.\<close>

definition tickAngle :: "optionsA \<Rightarrow> nat \<Rightarrow> real" where
  "tickAngle opts i = angleIncrement opts * real i"

text \<open>
  The falloff of widget A, \<open>i / this.options.ticks + 0.1\<close>. It is computed for the
  elements of the array only, and the constructor creates none when \<open>ticks\<close> is 0.
\<close>

definition tickOpacity :: "optionsA \<Rightarrow> nat \<Rightarrow> real" where
  "tickOpacity opts i = real i / real (ticks opts) + 0.1"

definition newOpacityModifier :: "optionsA \<Rightarrow> nat \<Rightarrow> state_modifier" where
  "newOpacityModifier opts i =
     \<lparr>sm_transform =
        TranslateOnCircle (circleRadius opts) (PiTimes (tickAngle opts i * (1 / 180))),
      sm_opacity = tickOpacity opts i\<rparr>"

definition newChain :: "optionsA \<Rightarrow> nat \<Rightarrow> tick_chain" where
  "newChain opts i =
     \<lparr>tc_opacityModifier = i,
      tc_rotationModifier = RotateZ (PiTimes (1 / 2 + 1 / real (ticks opts) * 2 * real i)),
      tc_surface_size = (tickWidth opts, tickHeight opts),
      tc_surface_color = color opts\<rparr>"

text \<open>
  The body of the constructor's loop for tick \<open>i\<close>: the new opacity modifier is allocated
  at reference \<open>i\<close>, pushed on \<open>tickOpacityModifiers\<close> and attached to the render node.
\<close>

definition addTick :: "nat \<Rightarrow> spinnerA \<Rightarrow> spinnerA" where
  "addTick i s =
     s\<lparr>tickOpacityModifiers := tickOpacityModifiers s @ [i],
       store := (store s)(i \<mapsto> newOpacityModifier (options s) i),
       renderNode := renderNode s @ [newChain (options s) i]\<rparr>"

text \<open>
  The options once the constructor has run \<open>if (options) this.setOptions(options)\<close> over
  the defaults the base class installs.
\<close>

definition initialOptions :: "overridesA option \<Rightarrow> optionsA" where
  "initialOptions ov =
     (case ov of None \<Rightarrow> DEFAULT_OPTIONS_A | Some v \<Rightarrow> setOptions v DEFAULT_OPTIONS_A)"

definition SpinnerA :: "overridesA option \<Rightarrow> spinnerA" where
  "SpinnerA ov =
     (let opts = initialOptions ov
      in fold addTick [0..<ticks opts]
           \<lparr>options = opts, spinnerState = OFF, tickOpacityModifiers = [],
            store = Map.empty, renderNode = [], shown = False, timeouts = 0\<rparr>)"

definition startA :: "spinnerA \<Rightarrow> spinnerA" where
  "startA s = s\<lparr>spinnerState := ON, shown := True, timeouts := timeouts s + 1\<rparr>"

definition stopA :: "spinnerA \<Rightarrow> spinnerA" where
  "stopA s = s\<lparr>spinnerState := OFF, shown := False\<rparr>"

text \<open>\<open>modifier.setOpacity(v)\<close> through a reference; a dangling reference is \<open>undefined\<close>.\<close>

definition setOpacityA ::
  "nat \<Rightarrow> real \<Rightarrow> (nat \<rightharpoonup> state_modifier) \<Rightarrow> error + (nat \<rightharpoonup> state_modifier)" where
  "setOpacityA r v h =
     (case h r of None \<Rightarrow> Inl TypeError | Some m \<Rightarrow> Inr (h(r \<mapsto> m\<lparr>sm_opacity := v\<rparr>)))"

text \<open>
  \<open>incrementSpinner\<close>. On an empty array \<open>shift()\<close> returns \<open>undefined\<close>, which is pushed
  and then dereferenced by the loop: a TypeError. The loop reads the array at position
  \<open>i\<close>, always in range since it runs to the array's length.
\<close>

definition incrementSpinner :: "spinnerA \<Rightarrow> error + spinnerA" where
  "incrementSpinner s =
     (case tickOpacityModifiers s of
        [] \<Rightarrow> Inl TypeError
      | r # rs \<Rightarrow>
          (let mods = rs @ [r] in
           case forLoop [0..<length mods]
                  (\<lambda>i. setOpacityA (mods ! i) (tickOpacity (options s) i)) (store s) of
             Inl e \<Rightarrow> Inl e
           | Inr h \<Rightarrow>
               (let s1 = s\<lparr>tickOpacityModifiers := mods, store := h\<rparr>
                in Inr (if spinnerState s1 = ON then s1\<lparr>timeouts := timeouts s1 + 1\<rparr>
                        else s1))))"

text \<open>
  One pending one-shot timer fires: the timer is used up and its callback
  \<open>incrementSpinner\<close> runs. \<open>None\<close>: no timer is pending, so nothing can fire.
\<close>

definition fireA :: "spinnerA \<Rightarrow> (error + spinnerA) option" where
  "fireA s =
     (if timeouts s = 0 then None
      else Some (incrementSpinner (s\<lparr>timeouts := timeouts s - 1\<rparr>)))"

text \<open>\<open>n\<close> scheduler ticks in a row.\<close>

fun ticksA :: "nat \<Rightarrow> spinnerA \<Rightarrow> (error + spinnerA) option" where
  "ticksA 0 s = Some (Inr s)"
| "ticksA (Suc n) s =
     (case fireA s of
        None \<Rightarrow> None
      | Some (Inl e) \<Rightarrow> Some (Inl e)
      | Some (Inr s') \<Rightarrow> ticksA n s')"

text \<open>The opacity an opacity modifier holds, by reference.\<close>

definition opacityOfA :: "spinnerA \<Rightarrow> nat \<Rightarrow> real option" where
  "opacityOfA s r = map_option sm_opacity (store s r)"

text \<open>
  The opacities as displayed: in the order of the render node, which is the order of the
  fixed angular positions.
\<close>

definition displayedA :: "spinnerA \<Rightarrow> real option list" where
  "displayedA s = map (\<lambda>c. opacityOfA s (tc_opacityModifier c)) (renderNode s)"

text \<open>The opacities in the order of the array \<open>tickOpacityModifiers\<close>.\<close>

definition listOpacitiesA :: "spinnerA \<Rightarrow> real option list" where
  "listOpacitiesA s = map (opacityOfA s) (tickOpacityModifiers s)"

text \<open>The opacity of the element at a position of the array, if there is one.\<close>

definition positionOpacityA :: "nat \<Rightarrow> spinnerA \<Rightarrow> real option" where
  "positionOpacityA i s =
     (if i < length (tickOpacityModifiers s) then opacityOfA s (tickOpacityModifiers s ! i)
      else None)"

text \<open>A caller's options that set the number of ticks and nothing else.\<close>

definition withTicks :: "nat \<Rightarrow> overridesA" where
  "withTicks n =
     \<lparr>o_size = None, o_ticks = Some n, o_speed = None, o_originCompensation = None,
      o_color = None\<rparr>"

text \<open>
  The states a widget A can be in: built by the constructor, then driven by calls of
  \<open>start\<close> and \<open>stop\<close> and by pending timers firing.
\<close>

inductive reachableA :: "spinnerA \<Rightarrow> bool" where
  constructed: "reachableA (SpinnerA ov)"
| started: "reachableA s \<Longrightarrow> reachableA (startA s)"
| stopped: "reachableA s \<Longrightarrow> reachableA (stopA s)"
| fired: "reachableA s \<Longrightarrow> fireA s = Some (Inr s') \<Longrightarrow> reachableA s'"

text \<open>
  What holds of every reachable state of widget A: the array holds each of the references
  \<open>0..<ticks\<close> once, each is allocated, the render node is as built, and position \<open>i\<close>
  of the array carries the opacity \<open>i / ticks + 0.1\<close>.
\<close>

definition invA :: "spinnerA \<Rightarrow> bool" where
  "invA s \<longleftrightarrow>
     distinct (tickOpacityModifiers s)
     \<and> set (tickOpacityModifiers s) = {0..<ticks (options s)}
     \<and> length (tickOpacityModifiers s) = ticks (options s)
     \<and> dom (store s) = {0..<ticks (options s)}
     \<and> renderNode s = map (newChain (options s)) [0..<ticks (options s)]
     \<and> listOpacitiesA s = map (\<lambda>i. Some (tickOpacity (options s) i)) [0..<ticks (options s)]"

section \<open>Widget B: the View spinner of Spinner.js (lines)\<close>

text \<open>
  The values a caller can pass where the source expects a duration or a callback. A
  function is known by a name only; \<open>called\<close> in the widget state logs the invocations.
\<close>

datatype jsval = Undefined | Num real | Fn nat

record optionsB =
  lines :: nat
  lineWidth :: real
  lineHeight :: real
  centerOffset :: real
  borderRadius :: real
  backgroundColor :: string
  spinSpeed :: nat
  fadeDuration :: real
  fadeCurve :: string

definition DEFAULT_OPTIONS_B :: optionsB where
  "DEFAULT_OPTIONS_B =
     \<lparr>lines = 12, lineWidth = 9, lineHeight = 3, centerOffset = 15, borderRadius = 2,
      backgroundColor = ''white'', spinSpeed = 90, fadeDuration = 1000,
      fadeCurve = ''easeOut''\<rparr>"

text \<open>
  The completion callback \<open>fade\<close> hands to an animated \<open>setOpacity\<close>: \<open>null\<close>, or
  \<open>this.stop.bind(this, cb)\<close>.
\<close>

datatype completion = NoCallback | StopWith jsval

record transition =
  tr_target :: real
  tr_duration :: jsval
  tr_curve :: string
  tr_callback :: completion

text \<open>
  A \<open>Modifier\<close> of the framework: its transform, its current opacity (1 unless the
  constructor is given one) and the queue of animated opacity changes that have been
  requested and are not complete yet.
\<close>

record modifier =
  md_transform :: transform
  md_opacity :: real
  md_queue :: "transition list"

record surface =
  sf_size :: "real \<times> real"
  sf_backgroundColor :: string
  sf_borderRadius :: real

text \<open>
  One chain \<open>this._add(rotateModifier).add(spinLineModifier).add(spinLineSurface)\<close>; the two
  modifiers are the objects at this index of \<open>rotateModifiers\<close> and \<open>spinLineModifiers\<close>.
\<close>

record line_chain =
  lc_rotateModifier :: nat
  lc_spinLineModifier :: nat
  lc_surface :: surface

text \<open>What the closure of an interval callback captures: \<open>count\<close> and its own \<open>t\<close>.\<close>

record interval_closure =
  cl_count :: nat
  cl_t :: nat

text \<open>
  \<open>intervals\<close> are the interval timers registered with \<open>Timer.setInterval\<close> and not
  cleared, by handle; \<open>nextHandle\<close> is the next fresh handle.
\<close>

record spinnerB =
  optsB :: optionsB
  spinLineModifiers :: "modifier list"
  rotateModifiers :: "modifier list"
  renderTree :: "line_chain list"
  spinInterval :: "nat option"
  intervals :: "nat \<rightharpoonup> interval_closure"
  nextHandle :: nat
  called :: "nat list"

text \<open>
  \<open>_spinLineOpacity(i, t, count)\<close>; \<open>%\<close> of JavaScript takes the sign of the dividend,
  which is \<open>smod\<close>.
\<close>

definition spinLineOpacity :: "int \<Rightarrow> int \<Rightarrow> int \<Rightarrow> real" where
  "spinLineOpacity i t cnt =
     (let pos = 1 - real_of_int ((cnt - i + t) smod cnt) / real_of_int cnt
      in pos * pos * 0.9 + 0.1)"

text \<open>\<open>rotationOffset = 2 * Math.PI / count\<close>, as a multiple of \<open>Math.PI\<close>.\<close>

definition rotationOffset :: "optionsB \<Rightarrow> real" where
  "rotationOffset opts = 2 / real (lines opts)"

definition addLine :: "nat \<Rightarrow> spinnerB \<Rightarrow> spinnerB" where
  "addLine i s =
     (let opts = optsB s;
          spinLineSurface =
            \<lparr>sf_size = (lineWidth opts, lineHeight opts),
             sf_backgroundColor = backgroundColor opts,
             sf_borderRadius = borderRadius opts\<rparr>;
          rotateModifier =
            \<lparr>md_transform = RotateZ (PiTimes (rotationOffset opts * real i)), md_opacity = 1,
             md_queue = []\<rparr>;
          spinLineModifier =
            \<lparr>md_transform = Translate (centerOffset opts) 0 0,
             md_opacity = spinLineOpacity (int i) 0 (int (lines opts)),
             md_queue = []\<rparr>
      in s\<lparr>spinLineModifiers := spinLineModifiers s @ [spinLineModifier],
           rotateModifiers := rotateModifiers s @ [rotateModifier],
           renderTree := renderTree s @
             [\<lparr>lc_rotateModifier = i, lc_spinLineModifier = i,
               lc_surface = spinLineSurface\<rparr>]\<rparr>)"

text \<open>
  The constructor. \<open>View.apply(this, arguments)\<close> of the framework merges the caller's
  options over \<open>DEFAULT_OPTIONS\<close>; the merged options are the parameter here.
\<close>

definition SpinnerB :: "optionsB \<Rightarrow> spinnerB" where
  "SpinnerB opts =
     fold addLine [0..<lines opts]
       \<lparr>optsB = opts, spinLineModifiers = [], rotateModifiers = [], renderTree = [],
        spinInterval = None, intervals = Map.empty, nextHandle = 0, called = []\<rparr>"

text \<open>
  \<open>array[i].setOpacity(v)\<close>, not animated: the opacity is set at once and the animations
  pending on this modifier are dropped. Out of range \<open>array[i]\<close> is \<open>undefined\<close>.
\<close>

definition setOpacityAt :: "nat \<Rightarrow> real \<Rightarrow> modifier list \<Rightarrow> error + modifier list" where
  "setOpacityAt i v ms =
     (if i < length ms then Inr (ms[i := (ms ! i)\<lparr>md_opacity := v, md_queue := []\<rparr>])
      else Inl TypeError)"

text \<open>\<open>array[i].setOpacity(v, options, callback)\<close>: the animation is queued.\<close>

definition animateOpacityAt ::
  "nat \<Rightarrow> transition \<Rightarrow> modifier list \<Rightarrow> error + modifier list" where
  "animateOpacityAt i tr ms =
     (if i < length ms then Inr (ms[i := (ms ! i)\<lparr>md_queue := md_queue (ms ! i) @ [tr]\<rparr>])
      else Inl TypeError)"

text \<open>\<open>if (cb) cb();\<close>\<close>

definition invoke :: "jsval \<Rightarrow> spinnerB \<Rightarrow> error + spinnerB" where
  "invoke cb s =
     (case cb of
        Undefined \<Rightarrow> Inr s
      | Num x \<Rightarrow> (if x = 0 then Inr s else Inl TypeError)
      | Fn c \<Rightarrow> Inr (s\<lparr>called := called s @ [c]\<rparr>))"

definition startB :: "spinnerB \<Rightarrow> spinnerB" where
  "startB s =
     (let cnt = length (spinLineModifiers s); h = nextHandle s
      in s\<lparr>spinInterval := Some h,
           intervals := (intervals s)(h \<mapsto> \<lparr>cl_count = cnt, cl_t = 0\<rparr>),
           nextHandle := Suc h\<rparr>)"

definition stopB :: "jsval \<Rightarrow> spinnerB \<Rightarrow> error + spinnerB" where
  "stopB cb s =
     invoke cb
       (case spinInterval s of
          None \<Rightarrow> s
        | Some h \<Rightarrow> s\<lparr>intervals := (intervals s)(h := None)\<rparr>)"

text \<open>
  The interval timer with handle \<open>h\<close> fires: its callback sets every opacity from the
  closure's \<open>t\<close>, then \<open>t++\<close>. \<open>None\<close>: no such timer is registered, nothing fires.
\<close>

definition tickB :: "nat \<Rightarrow> spinnerB \<Rightarrow> (error + spinnerB) option" where
  "tickB h s =
     (case intervals s h of
        None \<Rightarrow> None
      | Some c \<Rightarrow>
          Some (case forLoop [0..<cl_count c]
                       (\<lambda>i. setOpacityAt i
                          (spinLineOpacity (int i) (int (cl_t c)) (int (cl_count c))))
                       (spinLineModifiers s) of
                  Inl e \<Rightarrow> Inl e
                | Inr ms \<Rightarrow>
                    Inr (s\<lparr>spinLineModifiers := ms,
                           intervals := (intervals s)(h \<mapsto> c\<lparr>cl_t := Suc (cl_t c)\<rparr>)\<rparr>)))"

fun ticksB :: "nat \<Rightarrow> nat \<Rightarrow> spinnerB \<Rightarrow> (error + spinnerB) option" where
  "ticksB 0 h s = Some (Inr s)"
| "ticksB (Suc n) h s =
     (case tickB h s of
        None \<Rightarrow> None
      | Some (Inl e) \<Rightarrow> Some (Inl e)
      | Some (Inr s') \<Rightarrow> ticksB n h s')"

text \<open>The \<open>i\<close>-th actual argument of a call; a missing one is \<open>undefined\<close>.\<close>

definition argument :: "jsval list \<Rightarrow> nat \<Rightarrow> jsval" where
  "argument args i = (if i < length args then args ! i else Undefined)"

text \<open>The values of \<open>t\<close> and \<open>cb\<close> after the first statement of \<open>fade\<close>.\<close>

definition fadeArguments :: "optionsB \<Rightarrow> jsval list \<Rightarrow> jsval \<times> jsval" where
  "fadeArguments opts args =
     (if length args = 1 then (Num (fadeDuration opts), argument args 0)
      else (argument args 0, argument args 1))"

definition fade :: "jsval list \<Rightarrow> spinnerB \<Rightarrow> error + spinnerB" where
  "fade args s =
     (let (t, cb) = fadeArguments (optsB s) args;
          cnt = length (rotateModifiers s)
      in case forLoop [0..<cnt]
                (\<lambda>i. animateOpacityAt i
                   \<lparr>tr_target = 0, tr_duration = t, tr_curve = fadeCurve (optsB s),
                    tr_callback = (if i = 0 then StopWith cb else NoCallback)\<rparr>)
                (rotateModifiers s) of
           Inl e \<Rightarrow> Inl e
         | Inr ms \<Rightarrow> Inr (s\<lparr>rotateModifiers := ms\<rparr>))"

text \<open>
  The oldest animation queued on \<open>rotateModifiers[i]\<close> completes: the opacity has reached
  the target and the completion callback runs. \<open>None\<close>: nothing is queued there.
\<close>

definition completeTransition :: "nat \<Rightarrow> spinnerB \<Rightarrow> (error + spinnerB) option" where
  "completeTransition i s =
     (if i < length (rotateModifiers s) then
        (case md_queue (rotateModifiers s ! i) of
           [] \<Rightarrow> None
         | tr # q \<Rightarrow>
             (let s1 = s\<lparr>rotateModifiers := (rotateModifiers s)
                          [i := (rotateModifiers s ! i)
                                  \<lparr>md_opacity := tr_target tr, md_queue := q\<rparr>]\<rparr>
              in Some (case tr_callback tr of
                         NoCallback \<Rightarrow> Inr s1
                       | StopWith cb \<Rightarrow> stopB cb s1)))
      else None)"

text \<open>The animations complete one after the other, in the given order of indices.\<close>

fun completeAll :: "nat list \<Rightarrow> spinnerB \<Rightarrow> (error + spinnerB) option" where
  "completeAll [] s = Some (Inr s)"
| "completeAll (i # is) s =
     (case completeTransition i s of
        None \<Rightarrow> None
      | Some (Inl e) \<Rightarrow> Some (Inl e)
      | Some (Inr s') \<Rightarrow> completeAll is s')"

definition resetBody :: "nat \<Rightarrow> nat \<Rightarrow> modifier list \<times> modifier list
    \<Rightarrow> error + modifier list \<times> modifier list" where
  "resetBody cnt i st =
     (case setOpacityAt i (spinLineOpacity (int i) 0 (int cnt)) (fst st) of
        Inl e \<Rightarrow> Inl e
      | Inr sl \<Rightarrow>
          (case setOpacityAt i 1 (snd st) of
             Inl e \<Rightarrow> Inl e
           | Inr rm \<Rightarrow> Inr (sl, rm)))"

definition reset :: "jsval \<Rightarrow> spinnerB \<Rightarrow> error + spinnerB" where
  "reset cb s =
     (let cnt = length (spinLineModifiers s)
      in case forLoop [0..<cnt] (resetBody cnt)
                (spinLineModifiers s, rotateModifiers s) of
           Inl e \<Rightarrow> Inl e
         | Inr (sl, rm) \<Rightarrow> stopB cb (s\<lparr>spinLineModifiers := sl, rotateModifiers := rm\<rparr>))"

text \<open>The opacities of the spin lines and of their rotation modifiers, in array order.\<close>

definition displayedB :: "spinnerB \<Rightarrow> real list" where
  "displayedB s = map md_opacity (spinLineModifiers s)"

definition rotateOpacities :: "spinnerB \<Rightarrow> real list" where
  "rotateOpacities s = map md_opacity (rotateModifiers s)"

text \<open>The gradient the constructor of widget B gives \<open>cnt\<close> lines.\<close>

definition gradientB :: "nat \<Rightarrow> real list" where
  "gradientB cnt = map (\<lambda>i. spinLineOpacity (int i) 0 (int cnt)) [0..<cnt]"

text \<open>
  The states a widget B built with the options \<open>opts\<close> can be in. \<open>spin(t, cb)\<close> is
  \<open>start\<close> now and \<open>stop(cb)\<close> from a one-shot timer later, so it reaches no further
  state.
\<close>

inductive reachableB :: "optionsB \<Rightarrow> spinnerB \<Rightarrow> bool" where
  constructedB: "reachableB opts (SpinnerB opts)"
| startedB: "reachableB opts s \<Longrightarrow> reachableB opts (startB s)"
| stoppedB: "reachableB opts s \<Longrightarrow> stopB cb s = Inr s' \<Longrightarrow> reachableB opts s'"
| tickedB: "reachableB opts s \<Longrightarrow> tickB h s = Some (Inr s') \<Longrightarrow> reachableB opts s'"
| fadedB: "reachableB opts s \<Longrightarrow> fade args s = Inr s' \<Longrightarrow> reachableB opts s'"
| completedB:
    "reachableB opts s \<Longrightarrow> completeTransition i s = Some (Inr s') \<Longrightarrow> reachableB opts s'"
| resetB: "reachableB opts s \<Longrightarrow> reset cb s = Inr s' \<Longrightarrow> reachableB opts s'"

text \<open>A call of \<open>fade\<close>, then the animations completing in the given order.\<close>

definition fadeThenComplete ::
  "jsval list \<Rightarrow> nat list \<Rightarrow> spinnerB \<Rightarrow> (error + spinnerB) option" where
  "fadeThenComplete args order s =
     (case fade args s of Inl e \<Rightarrow> Some (Inl e) | Inr s1 \<Rightarrow> completeAll order s1)"

section \<open>Notions used in the proofs\<close>

text \<open>The opacities the interval callback of widget B writes when its counter is \<open>p\<close>.\<close>

definition phaseB :: "nat \<Rightarrow> nat \<Rightarrow> real list" where
  "phaseB cnt p = map (\<lambda>i. spinLineOpacity (int i) (int p) (int cnt)) [0..<cnt]"

text \<open>
  A list after a counted loop has replaced the elements at the indices below \<open>k\<close>, the one
  at index \<open>i\<close> by \<open>f i\<close> of it.
\<close>

definition updatedUpto :: "nat \<Rightarrow> (nat \<Rightarrow> 'a \<Rightarrow> 'a) \<Rightarrow> 'a list \<Rightarrow> 'a list" where
  "updatedUpto k f xs = map (\<lambda>i. if i < k then f i (xs ! i) else xs ! i) [0..<length xs]"

text \<open>
  What holds of every reachable state of widget B: both arrays have the configured length,
  every registered interval has captured that length as its \<open>count\<close>, and the spin lines
  show the gradient at some phase.
\<close>

definition invB :: "spinnerB \<Rightarrow> bool" where
  "invB s \<longleftrightarrow>
     length (spinLineModifiers s) = lines (optsB s)
     \<and> length (rotateModifiers s) = lines (optsB s)
     \<and> (\<forall>h c. intervals s h = Some c \<longrightarrow> cl_count c = lines (optsB s))
     \<and> (\<exists>p. displayedB s = phaseB (lines (optsB s)) p)"

text \<open>
  The animation \<open>fade\<close> queues on \<open>rotateModifiers[i]\<close>, given the duration and the callback
  its first statement has settled on.
\<close>

definition fadeTransition :: "spinnerB \<Rightarrow> jsval \<Rightarrow> jsval \<Rightarrow> nat \<Rightarrow> transition" where
  "fadeTransition s t cb i =
     \<lparr>tr_target = 0, tr_duration = t, tr_curve = fadeCurve (optsB s),
      tr_callback = (if i = 0 then StopWith cb else NoCallback)\<rparr>"

text \<open>
  A fade in progress: the modifiers in \<open>done\<close> have completed the animation \<open>tr i\<close>, the
  others still have it queued, alone.
\<close>

definition fadePending :: "(nat \<Rightarrow> transition) \<Rightarrow> nat set \<Rightarrow> modifier list \<Rightarrow> bool" where
  "fadePending tr done ms \<longleftrightarrow>
     (\<forall>i<length ms.
        if i \<in> done then md_opacity (ms ! i) = tr_target (tr i) \<and> md_queue (ms ! i) = []
        else md_queue (ms ! i) = [tr i])"

section \<open>Properties of widget A\<close>

lemma forLoop_append:
  "forLoop (xs @ ys) body s =
     (case forLoop xs body s of Inl e \<Rightarrow> Inl e | Inr s' \<Rightarrow> forLoop ys body s')"
  by (induction xs arbitrary: s) (auto split: sum.splits)

lemma fold_addTick_fields:
  "options (fold addTick is s) = options s"
  "tickOpacityModifiers (fold addTick is s) = tickOpacityModifiers s @ is"
  "renderNode (fold addTick is s) = renderNode s @ map (newChain (options s)) is"
  "spinnerState (fold addTick is s) = spinnerState s"
  "shown (fold addTick is s) = shown s"
  "timeouts (fold addTick is s) = timeouts s"
  by (induction "is" arbitrary: s; simp add: addTick_def)+

lemma fold_addTick_store:
  "distinct is \<Longrightarrow> store (fold addTick is s) r =
     (if r \<in> set is then Some (newOpacityModifier (options s) r) else store s r)"
  by (induction "is" arbitrary: s) (auto simp: addTick_def)


lemma SpinnerA_fields:
  "options (SpinnerA ov) = initialOptions ov"
  "tickOpacityModifiers (SpinnerA ov) = [0..<ticks (initialOptions ov)]"
  "renderNode (SpinnerA ov) = map (newChain (initialOptions ov)) [0..<ticks (initialOptions ov)]"
  "spinnerState (SpinnerA ov) = OFF"
  "shown (SpinnerA ov) = False"
  "timeouts (SpinnerA ov) = 0"
  "store (SpinnerA ov) r = (if r < ticks (initialOptions ov) then Some (newOpacityModifier (initialOptions ov) r) else None)"
  by (simp_all add: SpinnerA_def initialOptions_def Let_def fold_addTick_fields fold_addTick_store)

lemma forLoop_setOpacityA:
  assumes "distinct mods" "set mods \<subseteq> dom h" "k \<le> length mods"
  shows "\<exists>h'. forLoop [0..<k] (\<lambda>i. setOpacityA (mods ! i) (g i)) h = Inr h'
           \<and> dom h' = dom h
           \<and> (\<forall>i<k. h' (mods ! i) = Some ((the (h (mods ! i)))\<lparr>sm_opacity := g i\<rparr>))
           \<and> (\<forall>r. r \<notin> set (take k mods) \<longrightarrow> h' r = h r)"
  using assms(3)
proof (induction k)
  case 0
  then show ?case by simp
next
  case (Suc k)
  then obtain h' where h': "forLoop [0..<k] (\<lambda>i. setOpacityA (mods ! i) (g i)) h = Inr h'"
     "dom h' = dom h" "\<forall>i<k. h' (mods ! i) = Some ((the (h (mods ! i)))\<lparr>sm_opacity := g i\<rparr>)"
     "\<forall>r. r \<notin> set (take k mods) \<longrightarrow> h' r = h r"
    by auto
  have kin: "mods ! k \<in> dom h" using Suc.prems assms(2) by (auto simp: subset_iff)
  have knot: "mods ! k \<notin> set (take k mods)"
    using assms(1) Suc.prems by (auto simp: in_set_conv_nth nth_eq_iff_index_eq)
  then have hk: "h' (mods ! k) = h (mods ! k)" using h'(4) by blast
  obtain m where m: "h (mods ! k) = Some m" using kin by auto
  let ?h = "h'(mods ! k \<mapsto> m\<lparr>sm_opacity := g k\<rparr>)"
  have "forLoop [0..<Suc k] (\<lambda>i. setOpacityA (mods ! i) (g i)) h = Inr ?h"
    by (simp add: forLoop_append h'(1) setOpacityA_def hk m)
  moreover have "dom ?h = dom h" using h'(2) kin by auto
  moreover have "\<forall>i<Suc k. ?h (mods ! i) = Some ((the (h (mods ! i)))\<lparr>sm_opacity := g i\<rparr>)"
  proof (intro allI impI)
    fix i assume "i < Suc k"
    show "?h (mods ! i) = Some ((the (h (mods ! i)))\<lparr>sm_opacity := g i\<rparr>)"
    proof (cases "i = k")
      case True then show ?thesis by (simp add: m)
    next
      case False
      then have "i < k" using \<open>i < Suc k\<close> by simp
      moreover have "mods ! i \<noteq> mods ! k"
        using assms(1) Suc.prems \<open>i < k\<close> by (simp add: nth_eq_iff_index_eq)
      ultimately show ?thesis using h'(3) by simp
    qed
  qed
  moreover have "\<forall>r. r \<notin> set (take (Suc k) mods) \<longrightarrow> ?h r = h r"
    using h'(4) Suc.prems by (auto simp: take_Suc_conv_app_nth)
  ultimately show ?case by blast
qed


lemma incrementSpinner_step:
  assumes "distinct (tickOpacityModifiers s)"
    and "set (tickOpacityModifiers s) \<subseteq> dom (store s)"
    and "tickOpacityModifiers s \<noteq> []"
  shows "\<exists>s'. incrementSpinner s = Inr s'
           \<and> tickOpacityModifiers s' = rotate1 (tickOpacityModifiers s)
           \<and> options s' = options s \<and> renderNode s' = renderNode s
           \<and> spinnerState s' = spinnerState s \<and> shown s' = shown s
           \<and> timeouts s' = (if spinnerState s = ON then timeouts s + 1 else timeouts s)
           \<and> dom (store s') = dom (store s)
           \<and> (\<forall>i<length (tickOpacityModifiers s).
                 opacityOfA s' (rotate1 (tickOpacityModifiers s) ! i)
                   = Some (tickOpacity (options s) i))
           \<and> (\<forall>r. r \<notin> set (tickOpacityModifiers s) \<longrightarrow> store s' r = store s r)"
proof -
  obtain r rs where l: "tickOpacityModifiers s = r # rs"
    using assms(3) by (cases "tickOpacityModifiers s") auto
  let ?mods = "rs @ [r]"
  have d: "distinct ?mods" and sub: "set ?mods \<subseteq> dom (store s)"
    using assms(1,2) l by auto
  from forLoop_setOpacityA [OF d sub order_refl, of "tickOpacity (options s)"]
  obtain h where h: "forLoop [0..<length ?mods]
        (\<lambda>i. setOpacityA (?mods ! i) (tickOpacity (options s) i)) (store s) = Inr h"
      "dom h = dom (store s)"
      "\<forall>i<length ?mods. h (?mods ! i)
          = Some ((the (store s (?mods ! i)))\<lparr>sm_opacity := tickOpacity (options s) i\<rparr>)"
      "\<forall>x. x \<notin> set (take (length ?mods) ?mods) \<longrightarrow> h x = store s x"
    by blast
  let ?s1 = "s\<lparr>tickOpacityModifiers := ?mods, store := h\<rparr>"
  let ?s' = "if spinnerState s = ON then ?s1\<lparr>timeouts := timeouts s + 1\<rparr> else ?s1"
  have eq: "incrementSpinner s = Inr ?s'"
    using h(1) by (simp add: incrementSpinner_def l Let_def)
  have op: "\<forall>i<length (tickOpacityModifiers s).
        opacityOfA ?s' (rotate1 (tickOpacityModifiers s) ! i) = Some (tickOpacity (options s) i)"
    using h(3) by (simp add: l opacityOfA_def)
  have fr: "\<forall>x. x \<notin> set (tickOpacityModifiers s) \<longrightarrow> store ?s' x = store s x"
    using h(4) by (simp add: l)
  show ?thesis
    using eq op fr h(2) by (intro exI [of _ ?s']) (simp add: l)
qed


lemma listOpacitiesA_SpinnerA:
  "listOpacitiesA (SpinnerA ov)
     = map (\<lambda>i. Some (tickOpacity (initialOptions ov) i)) [0..<ticks (initialOptions ov)]"
  by (simp add: listOpacitiesA_def opacityOfA_def SpinnerA_fields newOpacityModifier_def)

lemma fireA_Inr:
  "fireA s = Some (Inr s') \<Longrightarrow>
     0 < timeouts s \<and> incrementSpinner (s\<lparr>timeouts := timeouts s - 1\<rparr>) = Inr s'"
  by (auto simp: fireA_def split: if_splits)

lemma incrementSpinner_Inr_nonempty:
  "incrementSpinner s = Inr s' \<Longrightarrow> tickOpacityModifiers s \<noteq> []"
  by (auto simp: incrementSpinner_def)

lemma listOpacitiesA_frame:
  "store s' = store s \<Longrightarrow> tickOpacityModifiers s' = tickOpacityModifiers s \<Longrightarrow>
     listOpacitiesA s' = listOpacitiesA s"
  by (simp add: listOpacitiesA_def opacityOfA_def [abs_def])

lemma invA_frame:
  "invA s \<Longrightarrow> store s' = store s \<Longrightarrow> tickOpacityModifiers s' = tickOpacityModifiers s \<Longrightarrow>
     options s' = options s \<Longrightarrow> renderNode s' = renderNode s \<Longrightarrow> invA s'"
  by (simp add: invA_def listOpacitiesA_frame [of s' s])

lemma invA_SpinnerA: "invA (SpinnerA ov)"
  by (auto simp: invA_def SpinnerA_fields listOpacitiesA_SpinnerA dom_def)

lemma invA_startA: "invA s \<Longrightarrow> invA (startA s)"
  by (erule invA_frame) (simp_all add: startA_def)

lemma invA_stopA: "invA s \<Longrightarrow> invA (stopA s)"
  by (erule invA_frame) (simp_all add: stopA_def)

lemma invA_incrementSpinner:
  assumes "invA s" "tickOpacityModifiers s \<noteq> []"
  shows "\<exists>s'. incrementSpinner s = Inr s' \<and> invA s'
           \<and> tickOpacityModifiers s' = rotate1 (tickOpacityModifiers s)
           \<and> options s' = options s \<and> renderNode s' = renderNode s
           \<and> spinnerState s' = spinnerState s \<and> shown s' = shown s
           \<and> timeouts s' = (if spinnerState s = ON then timeouts s + 1 else timeouts s)"
proof -
  have d: "distinct (tickOpacityModifiers s)"
    and sub: "set (tickOpacityModifiers s) \<subseteq> dom (store s)"
    using assms(1) by (simp_all add: invA_def)
  from incrementSpinner_step [OF d sub assms(2)]
  obtain s' where s': "incrementSpinner s = Inr s'"
      "tickOpacityModifiers s' = rotate1 (tickOpacityModifiers s)"
      "options s' = options s" "renderNode s' = renderNode s"
      "spinnerState s' = spinnerState s" "shown s' = shown s"
      "timeouts s' = (if spinnerState s = ON then timeouts s + 1 else timeouts s)"
      "dom (store s') = dom (store s)"
      "\<forall>i<length (tickOpacityModifiers s).
          opacityOfA s' (rotate1 (tickOpacityModifiers s) ! i) = Some (tickOpacity (options s) i)"
    by blast
  have len: "length (tickOpacityModifiers s) = ticks (options s)"
    using assms(1) by (simp add: invA_def)
  have "listOpacitiesA s' = map (\<lambda>i. Some (tickOpacity (options s') i)) [0..<ticks (options s')]"
    using s'(9) by (simp add: list_eq_iff_nth_eq listOpacitiesA_def s'(2,3) len)
  then have "invA s'"
    using assms(1) s'(2,3,4,8) by (simp add: invA_def)
  then show ?thesis using s' by blast
qed

lemma reachableA_invA: "reachableA s \<Longrightarrow> invA s"
proof (induction rule: reachableA.induct)
  case (constructed ov)
  show ?case by (rule invA_SpinnerA)
next
  case (started s)
  then show ?case by (simp add: invA_startA)
next
  case (stopped s)
  then show ?case by (simp add: invA_stopA)
next
  case (fired s s')
  let ?s = "s\<lparr>timeouts := timeouts s - 1\<rparr>"
  have inc: "incrementSpinner ?s = Inr s'" using fireA_Inr [OF fired.hyps(2)] by simp
  have "invA ?s" using fired.IH by (rule invA_frame) simp_all
  moreover have "tickOpacityModifiers ?s \<noteq> []" using inc by (rule incrementSpinner_Inr_nonempty)
  ultimately show ?case using invA_incrementSpinner [of ?s] inc by auto
qed

lemma fireA_reachable:
  assumes "reachableA s" "0 < timeouts s" "tickOpacityModifiers s \<noteq> []"
  shows "\<exists>s'. fireA s = Some (Inr s') \<and> invA s'
           \<and> tickOpacityModifiers s' = rotate1 (tickOpacityModifiers s)
           \<and> options s' = options s \<and> renderNode s' = renderNode s
           \<and> spinnerState s' = spinnerState s \<and> shown s' = shown s
           \<and> timeouts s' = (if spinnerState s = ON then timeouts s else timeouts s - 1)"
proof -
  let ?s = "s\<lparr>timeouts := timeouts s - 1\<rparr>"
  have "invA ?s"
    using reachableA_invA [OF assms(1)] by (rule invA_frame) simp_all
  from invA_incrementSpinner [OF this] assms(2,3) show ?thesis
    by (auto simp: fireA_def)
qed

subsection \<open>One tick of widget A\<close>

text \<open>
  Claim C1, amended. In every reachable state of widget A with at least two tick elements
  and a tick scheduled, the tick runs without error, moves the first element of the array
  to its end, so that the element now at position 0 is the one that was at position 1, and
  reassigns the opacities by the falloff formula: the opacity assigned to the element now at
  position 0 is the one the element at position 0 held before, \<open>0 / ticks + 0.1\<close>, and every
  position of the array carries the opacity it carried before the tick. So each element takes
  over the opacity of its predecessor in the array, and the gradient advances by one step.
\<close>

theorem C1_tick_rotates_list:
  assumes "reachableA s" and "0 < timeouts s" and "2 \<le> length (tickOpacityModifiers s)"
  shows "\<exists>s'. fireA s = Some (Inr s')
           \<and> tickOpacityModifiers s' = rotate1 (tickOpacityModifiers s)
           \<and> tickOpacityModifiers s' ! 0 = tickOpacityModifiers s ! 1
           \<and> positionOpacityA 0 s' = positionOpacityA 0 s
           \<and> positionOpacityA 0 s' = Some (tickOpacity (options s) 0)
           \<and> listOpacitiesA s' = listOpacitiesA s"
proof -
  have ne: "tickOpacityModifiers s \<noteq> []" using assms(3) by auto
  from fireA_reachable [OF assms(1,2) ne]
  obtain s' where s': "fireA s = Some (Inr s')" "invA s'"
      "tickOpacityModifiers s' = rotate1 (tickOpacityModifiers s)" "options s' = options s"
    by blast
  have inv: "invA s" using assms(1) by (rule reachableA_invA)
  have len: "length (tickOpacityModifiers s) = ticks (options s)"
    using inv by (simp add: invA_def)
  have l: "listOpacitiesA s = map (\<lambda>i. Some (tickOpacity (options s) i)) [0..<ticks (options s)]"
    using inv by (simp add: invA_def)
  have l': "listOpacitiesA s' = map (\<lambda>i. Some (tickOpacity (options s) i)) [0..<ticks (options s)]"
    using s'(2,4) by (simp add: invA_def)
  have pos: "positionOpacityA 0 t = listOpacitiesA t ! 0" if "tickOpacityModifiers t \<noteq> []" for t
    using that by (simp add: positionOpacityA_def listOpacitiesA_def)
  have ne': "tickOpacityModifiers s' \<noteq> []" using ne s'(3) by simp
  have "tickOpacityModifiers s' ! 0 = tickOpacityModifiers s ! 1"
    using assms(3) s'(3) by (cases "tickOpacityModifiers s") (auto simp: nth_append)
  moreover have "positionOpacityA 0 s' = positionOpacityA 0 s"
    by (simp add: pos ne ne' l l')
  moreover have "positionOpacityA 0 s' = Some (tickOpacity (options s) 0)"
    using assms(3) len by (simp add: pos ne' l')
  ultimately show ?thesis using s'(1,3) l l' by auto
qed

text \<open>The theorem at a running widget of four ticks.\<close>

theorem C1_tick_rotates_list_witness:
  "reachableA (startA (SpinnerA (Some (withTicks 4))))
   \<and> 0 < timeouts (startA (SpinnerA (Some (withTicks 4))))
   \<and> 2 \<le> length (tickOpacityModifiers (startA (SpinnerA (Some (withTicks 4)))))
   \<and> (\<exists>s'. fireA (startA (SpinnerA (Some (withTicks 4)))) = Some (Inr s')
          \<and> tickOpacityModifiers s' = [1, 2, 3, 0]
          \<and> positionOpacityA 0 s' = Some (1 / 10))"
proof -
  let ?s = "startA (SpinnerA (Some (withTicks 4)))"
  have r: "reachableA ?s" by (intro reachableA.intros)
  have t: "0 < timeouts ?s" by code_simp
  have n: "2 \<le> length (tickOpacityModifiers ?s)" by code_simp
  have l: "rotate1 (tickOpacityModifiers ?s) = [1, 2, 3, 0]" by code_simp
  have o: "tickOpacity (options ?s) 0 = 1 / 10" by code_simp
  from C1_tick_rotates_list [OF r t n] have "\<exists>s'. fireA ?s = Some (Inr s')
          \<and> tickOpacityModifiers s' = [1, 2, 3, 0]
          \<and> positionOpacityA 0 s' = Some (1 / 10)"
    unfolding l o by blast
  with r t n show ?thesis by blast
qed

text \<open>
  The claim as it is written fails on a widget of four ticks: after the first tick the
  element at position 0 of the array has opacity \<open>0.1\<close>, while the element at position 1
  (the same element) held \<open>0.35\<close> before the tick.
\<close>

theorem C1_counterexample:
  "map_option (map_sum id (positionOpacityA 0)) (fireA (startA (SpinnerA (Some (withTicks 4)))))
     = Some (Inr (Some (1 / 10)))
   \<and> positionOpacityA 1 (startA (SpinnerA (Some (withTicks 4)))) = Some (7 / 20)
   \<and> map_option (map_sum id (positionOpacityA 0)) (fireA (startA (SpinnerA (Some (withTicks 4)))))
     \<noteq> Some (Inr (positionOpacityA 1 (startA (SpinnerA (Some (withTicks 4))))))"
  by code_simp

section \<open>Properties of widget B\<close>

lemma length_updatedUpto [simp]: "length (updatedUpto k f xs) = length xs"
  by (simp add: updatedUpto_def)

lemma nth_updatedUpto:
  "i < length xs \<Longrightarrow> updatedUpto k f xs ! i = (if i < k then f i (xs ! i) else xs ! i)"
  by (simp add: updatedUpto_def)

lemma updatedUpto_0 [simp]: "updatedUpto 0 f xs = xs"
  by (simp add: updatedUpto_def map_nth)

lemma updatedUpto_Suc:
  "k < length xs \<Longrightarrow>
     (updatedUpto k f xs)[k := f k (updatedUpto k f xs ! k)] = updatedUpto (Suc k) f xs"
  by (rule nth_equalityI) (auto simp: nth_updatedUpto nth_list_update)

lemma updatedUpto_Suc_nth:
  "k < length xs \<Longrightarrow> (updatedUpto k f xs)[k := f k (xs ! k)] = updatedUpto (Suc k) f xs"
  by (rule nth_equalityI) (auto simp: nth_updatedUpto nth_list_update)

lemma forLoop_update:
  assumes body: "\<And>i ms. i < length ms \<Longrightarrow> body i ms = Inr (ms[i := f i (ms ! i)])"
    and "k \<le> length xs"
  shows "forLoop [0..<k] body xs = Inr (updatedUpto k f xs)"
  using assms(2)
proof (induction k)
  case 0
  show ?case by simp
next
  case (Suc k)
  then have "forLoop [0..<k] body xs = Inr (updatedUpto k f xs)" and k: "k < length xs"
    by simp_all
  then show ?case
    by (simp add: forLoop_append body updatedUpto_Suc)
qed

lemma fold_addLine_fields:
  "optsB (fold addLine is s) = optsB s"
  "spinInterval (fold addLine is s) = spinInterval s"
  "intervals (fold addLine is s) = intervals s"
  "nextHandle (fold addLine is s) = nextHandle s"
  "called (fold addLine is s) = called s"
  by (induction "is" arbitrary: s; simp add: addLine_def Let_def)+

lemma fold_addLine_lists:
  "spinLineModifiers (fold addLine is s) = spinLineModifiers s @
     map (\<lambda>i. \<lparr>md_transform = Translate (centerOffset (optsB s)) 0 0,
                md_opacity = spinLineOpacity (int i) 0 (int (lines (optsB s))),
                md_queue = []\<rparr>) is"
  "rotateModifiers (fold addLine is s) = rotateModifiers s @
     map (\<lambda>i. \<lparr>md_transform = RotateZ (PiTimes (rotationOffset (optsB s) * real i)),
                md_opacity = 1, md_queue = []\<rparr>) is"
  "renderTree (fold addLine is s) = renderTree s @
     map (\<lambda>i. \<lparr>lc_rotateModifier = i, lc_spinLineModifier = i,
                lc_surface = \<lparr>sf_size = (lineWidth (optsB s), lineHeight (optsB s)),
                              sf_backgroundColor = backgroundColor (optsB s),
                              sf_borderRadius = borderRadius (optsB s)\<rparr>\<rparr>) is"
  by (induction "is" arbitrary: s; simp add: addLine_def Let_def)+

lemma SpinnerB_fields:
  "optsB (SpinnerB opts) = opts"
  "spinInterval (SpinnerB opts) = None"
  "intervals (SpinnerB opts) = Map.empty"
  "nextHandle (SpinnerB opts) = 0"
  "called (SpinnerB opts) = []"
  "spinLineModifiers (SpinnerB opts) =
     map (\<lambda>i. \<lparr>md_transform = Translate (centerOffset opts) 0 0,
                md_opacity = spinLineOpacity (int i) 0 (int (lines opts)),
                md_queue = []\<rparr>) [0..<lines opts]"
  "rotateModifiers (SpinnerB opts) =
     map (\<lambda>i. \<lparr>md_transform = RotateZ (PiTimes (rotationOffset opts * real i)),
                md_opacity = 1, md_queue = []\<rparr>) [0..<lines opts]"
  "renderTree (SpinnerB opts) =
     map (\<lambda>i. \<lparr>lc_rotateModifier = i, lc_spinLineModifier = i,
                lc_surface = \<lparr>sf_size = (lineWidth opts, lineHeight opts),
                              sf_backgroundColor = backgroundColor opts,
                              sf_borderRadius = borderRadius opts\<rparr>\<rparr>) [0..<lines opts]"
  by (simp_all add: SpinnerB_def fold_addLine_fields fold_addLine_lists)

lemma displayedB_SpinnerB: "displayedB (SpinnerB opts) = gradientB (lines opts)"
  by (simp add: displayedB_def SpinnerB_fields gradientB_def o_def)

lemma rotateOpacities_SpinnerB: "rotateOpacities (SpinnerB opts) = replicate (lines opts) 1"
  by (simp add: rotateOpacities_def SpinnerB_fields o_def map_replicate_const)

lemma phaseB_0: "phaseB cnt 0 = gradientB cnt"
  by (simp add: phaseB_def gradientB_def)

lemma invB_SpinnerB: "invB (SpinnerB opts)"
  unfolding invB_def
  by (auto simp: SpinnerB_fields displayedB_SpinnerB phaseB_0 [symmetric])

lemma forLoop_setOpacityAt:
  assumes "k \<le> length ms"
  shows "forLoop [0..<k] (\<lambda>i. setOpacityAt i (g i)) ms
           = Inr (updatedUpto k (\<lambda>i m. m\<lparr>md_opacity := g i, md_queue := []\<rparr>) ms)"
  by (rule forLoop_update [OF _ assms]) (simp add: setOpacityAt_def)

lemma forLoop_animateOpacityAt:
  assumes "k \<le> length ms"
  shows "forLoop [0..<k] (\<lambda>i. animateOpacityAt i (tr i)) ms
           = Inr (updatedUpto k (\<lambda>i m. m\<lparr>md_queue := md_queue m @ [tr i]\<rparr>) ms)"
  by (rule forLoop_update [OF _ assms]) (simp add: animateOpacityAt_def)

lemma tickB_step:
  assumes "intervals s h = Some c" and "cl_count c = length (spinLineModifiers s)"
  shows "tickB h s = Some (Inr (s\<lparr>spinLineModifiers :=
             updatedUpto (cl_count c)
               (\<lambda>i m. m\<lparr>md_opacity := spinLineOpacity (int i) (int (cl_t c)) (int (cl_count c)),
                         md_queue := []\<rparr>) (spinLineModifiers s),
           intervals := (intervals s)(h \<mapsto> c\<lparr>cl_t := Suc (cl_t c)\<rparr>)\<rparr>))"
  using assms by (simp add: tickB_def forLoop_setOpacityAt)

lemma displayedB_updatedUpto:
  "displayedB (s\<lparr>spinLineModifiers :=
       updatedUpto (length (spinLineModifiers s))
         (\<lambda>i m. m\<lparr>md_opacity := g i, md_queue := []\<rparr>) (spinLineModifiers s)\<rparr>)
     = map g [0..<length (spinLineModifiers s)]"
  by (rule nth_equalityI) (simp_all add: displayedB_def nth_updatedUpto)

lemma tickB_invB:
  assumes "invB s" and "intervals s h = Some c"
  shows "\<exists>s'. tickB h s = Some (Inr s') \<and> invB s'
           \<and> displayedB s' = phaseB (lines (optsB s)) (cl_t c)
           \<and> intervals s' = (intervals s)(h \<mapsto> c\<lparr>cl_t := Suc (cl_t c)\<rparr>)
           \<and> optsB s' = optsB s \<and> rotateModifiers s' = rotateModifiers s
           \<and> spinInterval s' = spinInterval s \<and> called s' = called s
           \<and> nextHandle s' = nextHandle s"
proof -
  have cnt: "cl_count c = length (spinLineModifiers s)"
    and len: "length (spinLineModifiers s) = lines (optsB s)"
    using assms by (simp_all add: invB_def)
  let ?g = "\<lambda>i. spinLineOpacity (int i) (int (cl_t c)) (int (cl_count c))"
  let ?s' = "s\<lparr>spinLineModifiers :=
             updatedUpto (cl_count c) (\<lambda>i m. m\<lparr>md_opacity := ?g i, md_queue := []\<rparr>)
               (spinLineModifiers s),
           intervals := (intervals s)(h \<mapsto> c\<lparr>cl_t := Suc (cl_t c)\<rparr>)\<rparr>"
  have t: "tickB h s = Some (Inr ?s')" by (rule tickB_step [OF assms(2) cnt])
  have d: "displayedB ?s' = phaseB (lines (optsB s)) (cl_t c)"
    using displayedB_updatedUpto [of s ?g]
    by (simp add: cnt len phaseB_def displayedB_def)
  have "invB ?s'"
    unfolding invB_def using assms(1) d
    by (auto simp: invB_def cnt len)
  then show ?thesis using t d by (intro exI [of _ ?s']) simp
qed

lemma stopB_cases:
  "stopB cb s = Inr s' \<Longrightarrow>
     optsB s' = optsB s \<and> spinLineModifiers s' = spinLineModifiers s
     \<and> rotateModifiers s' = rotateModifiers s \<and> renderTree s' = renderTree s
     \<and> spinInterval s' = spinInterval s \<and> nextHandle s' = nextHandle s
     \<and> intervals s' = (case spinInterval s of None \<Rightarrow> intervals s
                        | Some h \<Rightarrow> (intervals s)(h := None))
     \<and> called s' = (case cb of Fn c \<Rightarrow> called s @ [c] | _ \<Rightarrow> called s)"
  by (auto simp: stopB_def invoke_def split: jsval.splits option.splits if_splits)

lemma stopB_invB: "invB s \<Longrightarrow> stopB cb s = Inr s' \<Longrightarrow> invB s'"
  by (drule stopB_cases) (auto simp: invB_def displayedB_def split: option.splits if_splits)

lemma startB_invB: "invB s \<Longrightarrow> invB (startB s)"
  by (auto simp: invB_def startB_def Let_def displayedB_def)

lemma fade_result:
  "fade args s = Inr (s\<lparr>rotateModifiers :=
      updatedUpto (length (rotateModifiers s))
        (\<lambda>i m. m\<lparr>md_queue := md_queue m @
            [\<lparr>tr_target = 0, tr_duration = fst (fadeArguments (optsB s) args),
              tr_curve = fadeCurve (optsB s),
              tr_callback = (if i = 0 then StopWith (snd (fadeArguments (optsB s) args))
                             else NoCallback)\<rparr>]\<rparr>)
        (rotateModifiers s)\<rparr>)"
  by (simp add: fade_def forLoop_animateOpacityAt case_prod_beta)

lemma fade_invB: "invB s \<Longrightarrow> fade args s = Inr s' \<Longrightarrow> invB s'"
  by (auto simp: fade_result invB_def displayedB_def)

lemma completeTransition_invB:
  assumes "invB s" "completeTransition i s = Some (Inr s')"
  shows "invB s'"
proof -
  from assms(2) obtain tr q where i: "i < length (rotateModifiers s)"
    and q: "md_queue (rotateModifiers s ! i) = tr # q"
    by (auto simp: completeTransition_def split: if_splits list.splits)
  let ?s1 = "s\<lparr>rotateModifiers := (rotateModifiers s)
                 [i := (rotateModifiers s ! i)\<lparr>md_opacity := tr_target tr, md_queue := q\<rparr>]\<rparr>"
  have inv1: "invB ?s1" using assms(1) by (auto simp: invB_def displayedB_def)
  have "(case tr_callback tr of NoCallback \<Rightarrow> Inr ?s1 | StopWith cb \<Rightarrow> stopB cb ?s1) = Inr s'"
    using assms(2) i q by (simp add: completeTransition_def Let_def)
  then show ?thesis
    using inv1 by (cases "tr_callback tr") (auto intro: stopB_invB)
qed

lemma forLoop_resetBody:
  assumes "k \<le> length sl" "k \<le> length rm"
  shows "forLoop [0..<k] (resetBody cnt) (sl, rm)
           = Inr (updatedUpto k (\<lambda>i m. m\<lparr>md_opacity := spinLineOpacity (int i) 0 (int cnt),
                                         md_queue := []\<rparr>) sl,
                  updatedUpto k (\<lambda>i m. m\<lparr>md_opacity := 1, md_queue := []\<rparr>) rm)"
  using assms
proof (induction k)
  case 0
  show ?case by simp
next
  case (Suc k)
  then have IH: "forLoop [0..<k] (resetBody cnt) (sl, rm)
           = Inr (updatedUpto k (\<lambda>i m. m\<lparr>md_opacity := spinLineOpacity (int i) 0 (int cnt),
                                         md_queue := []\<rparr>) sl,
                  updatedUpto k (\<lambda>i m. m\<lparr>md_opacity := 1, md_queue := []\<rparr>) rm)"
    and k: "k < length sl" "k < length rm"
    by simp_all
  have step: "resetBody cnt k (updatedUpto k f sl, updatedUpto k g rm)
      = Inr (updatedUpto (Suc k) f sl, updatedUpto (Suc k) g rm)"
    if "f k (sl ! k) = (sl ! k)\<lparr>md_opacity := spinLineOpacity (int k) 0 (int cnt), md_queue := []\<rparr>"
      and "g k (rm ! k) = (rm ! k)\<lparr>md_opacity := 1, md_queue := []\<rparr>" for f g
    using k that
    by (simp add: resetBody_def setOpacityAt_def nth_updatedUpto updatedUpto_Suc_nth [symmetric])
  have "forLoop [0..<Suc k] (resetBody cnt) (sl, rm)
      = resetBody cnt k
          (updatedUpto k (\<lambda>i m. m\<lparr>md_opacity := spinLineOpacity (int i) 0 (int cnt),
                                         md_queue := []\<rparr>) sl,
           updatedUpto k (\<lambda>i m. m\<lparr>md_opacity := 1, md_queue := []\<rparr>) rm)"
    by (simp add: forLoop_append IH split: sum.splits)
  also have "\<dots> = Inr (updatedUpto (Suc k) (\<lambda>i m. m\<lparr>md_opacity := spinLineOpacity (int i) 0 (int cnt),
                                         md_queue := []\<rparr>) sl,
           updatedUpto (Suc k) (\<lambda>i m. m\<lparr>md_opacity := 1, md_queue := []\<rparr>) rm)"
    by (rule step) simp_all
  finally show ?case .
qed

lemma reset_result:
  assumes "length (rotateModifiers s) = length (spinLineModifiers s)"
  shows "reset cb s = stopB cb (s\<lparr>spinLineModifiers :=
             updatedUpto (length (spinLineModifiers s))
               (\<lambda>i m. m\<lparr>md_opacity := spinLineOpacity (int i) 0
                            (int (length (spinLineModifiers s))), md_queue := []\<rparr>)
               (spinLineModifiers s),
           rotateModifiers :=
             updatedUpto (length (spinLineModifiers s))
               (\<lambda>i m. m\<lparr>md_opacity := 1, md_queue := []\<rparr>) (rotateModifiers s)\<rparr>)"
  using assms by (simp add: reset_def forLoop_resetBody Let_def)

lemma displayedB_reset_state:
  "displayedB (s\<lparr>spinLineModifiers :=
             updatedUpto (length (spinLineModifiers s))
               (\<lambda>i m. m\<lparr>md_opacity := g i, md_queue := []\<rparr>) (spinLineModifiers s),
           rotateModifiers := rm\<rparr>)
     = map g [0..<length (spinLineModifiers s)]"
  by (rule nth_equalityI) (simp_all add: displayedB_def nth_updatedUpto)

lemma rotateOpacities_reset_state:
  "rotateOpacities (s\<lparr>spinLineModifiers := sl,
           rotateModifiers := updatedUpto (length (rotateModifiers s))
               (\<lambda>i m. m\<lparr>md_opacity := 1, md_queue := []\<rparr>) (rotateModifiers s)\<rparr>)
     = replicate (length (rotateModifiers s)) 1"
  by (rule nth_equalityI) (simp_all add: rotateOpacities_def nth_updatedUpto)

lemma reset_invB:
  assumes "invB s" "reset cb s = Inr s'"
  shows "invB s'"
proof -
  have len: "length (rotateModifiers s) = length (spinLineModifiers s)"
    and n: "length (spinLineModifiers s) = lines (optsB s)"
    using assms(1) by (simp_all add: invB_def)
  let ?s1 = "s\<lparr>spinLineModifiers :=
             updatedUpto (length (spinLineModifiers s))
               (\<lambda>i m. m\<lparr>md_opacity := spinLineOpacity (int i) 0
                            (int (length (spinLineModifiers s))), md_queue := []\<rparr>)
               (spinLineModifiers s),
           rotateModifiers :=
             updatedUpto (length (spinLineModifiers s))
               (\<lambda>i m. m\<lparr>md_opacity := 1, md_queue := []\<rparr>) (rotateModifiers s)\<rparr>"
  have "displayedB ?s1 = phaseB (lines (optsB s)) 0"
    by (simp add: displayedB_reset_state phaseB_def flip: n)
  then have "invB ?s1"
    using assms(1) unfolding invB_def by (auto simp: len n)
  moreover have "stopB cb ?s1 = Inr s'" using assms(2) reset_result [OF len] by simp
  ultimately show ?thesis by (rule stopB_invB)
qed

lemma tickB_optsB: "tickB h s = Some (Inr s') \<Longrightarrow> optsB s' = optsB s"
  by (auto simp: tickB_def split: option.splits sum.splits)

lemma completeTransition_optsB: "completeTransition i s = Some (Inr s') \<Longrightarrow> optsB s' = optsB s"
  by (auto simp: completeTransition_def Let_def dest!: stopB_cases
      split: if_splits list.splits completion.splits)

lemma reset_optsB:
  "reset cb s = Inr s' \<Longrightarrow> optsB s' = optsB s"
  by (auto simp: reset_def Let_def dest!: stopB_cases split: sum.splits prod.splits)

lemma reachableB_invB: "reachableB opts s \<Longrightarrow> invB s \<and> optsB s = opts"
proof (induction rule: reachableB.induct)
  case (constructedB opts)
  show ?case by (simp add: invB_SpinnerB SpinnerB_fields)
next
  case (startedB opts s)
  then show ?case by (simp add: startB_invB) (simp add: startB_def Let_def)
next
  case (stoppedB opts s cb s')
  then show ?case by (auto intro: stopB_invB dest: stopB_cases)
next
  case (tickedB opts s h s')
  from tickedB.hyps(2) obtain c where c: "intervals s h = Some c"
    by (auto simp: tickB_def split: option.splits)
  from tickB_invB [of s h c] c tickedB.IH tickedB.hyps(2) show ?case by auto
next
  case (fadedB opts s args s')
  then show ?case by (auto intro: fade_invB simp: fade_result)
next
  case (completedB opts s i s')
  then show ?case by (auto intro: completeTransition_invB dest: completeTransition_optsB)
next
  case (resetB opts s cb s')
  then show ?case by (auto intro: reset_invB dest: reset_optsB)
qed

lemma ticksB_run:
  assumes "invB s" and "intervals s h = Some c"
  shows "\<exists>s'. ticksB n h s = Some (Inr s') \<and> invB s'
           \<and> intervals s' h = Some (c\<lparr>cl_t := cl_t c + n\<rparr>)
           \<and> optsB s' = optsB s \<and> rotateModifiers s' = rotateModifiers s
           \<and> called s' = called s
           \<and> displayedB s' = (if n = 0 then displayedB s
                               else phaseB (lines (optsB s)) (cl_t c + n - 1))"
  using assms
proof (induction n arbitrary: s c)
  case 0
  then show ?case by simp
next
  case (Suc n)
  from tickB_invB [OF Suc.prems]
  obtain s1 where s1: "tickB h s = Some (Inr s1)" "invB s1"
      "displayedB s1 = phaseB (lines (optsB s)) (cl_t c)"
      "intervals s1 = (intervals s)(h \<mapsto> c\<lparr>cl_t := Suc (cl_t c)\<rparr>)"
      "optsB s1 = optsB s" "rotateModifiers s1 = rotateModifiers s" "called s1 = called s"
    by blast
  have i1: "intervals s1 h = Some (c\<lparr>cl_t := Suc (cl_t c)\<rparr>)" by (simp add: s1(4))
  from Suc.IH [OF s1(2) i1]
  obtain s' where s': "ticksB n h s1 = Some (Inr s')" "invB s'"
      "intervals s' h = Some (c\<lparr>cl_t := Suc (cl_t c) + n\<rparr>)"
      "optsB s' = optsB s1" "rotateModifiers s' = rotateModifiers s1" "called s' = called s1"
      "displayedB s' = (if n = 0 then displayedB s1
                        else phaseB (lines (optsB s1)) (Suc (cl_t c) + n - 1))"
    by auto
  have "ticksB (Suc n) h s = Some (Inr s')" by (simp add: s1(1) s'(1))
  moreover have "displayedB s' = phaseB (lines (optsB s)) (cl_t c + Suc n - 1)"
    using s'(7) s1(3,5) by (cases "n = 0") simp_all
  ultimately show ?case using s' s1 by auto
qed

lemma smod_nonneg: "0 \<le> a \<Longrightarrow> 0 < b \<Longrightarrow> a smod b = a mod (b::int)"
  by (simp add: signed_modulo_int_def sgn_if)

lemma spinLineOpacity_nat:
  assumes "i \<le> cnt" "0 < cnt"
  shows "spinLineOpacity (int i) (int p) (int cnt)
     = (1 - real ((cnt - i + p) mod cnt) / real cnt) * (1 - real ((cnt - i + p) mod cnt) / real cnt)
         * 0.9 + 0.1"
proof -
  have "int cnt - int i + int p = int (cnt - i + p)" using assms(1) by simp
  moreover have "int (cnt - i + p) smod int cnt = int ((cnt - i + p) mod cnt)"
    using assms(2) by (simp add: smod_nonneg zmod_int)
  ultimately have "(int cnt - int i + int p) smod int cnt = int ((cnt - i + p) mod cnt)"
    by (simp only:)
  then show ?thesis unfolding spinLineOpacity_def Let_def by (simp only: of_int_of_nat_eq)
qed

lemma rotate_phaseB: "rotate p (phaseB cnt p) = gradientB cnt"
proof (rule nth_equalityI)
  show "length (rotate p (phaseB cnt p)) = length (gradientB cnt)"
    by (simp add: phaseB_def gradientB_def)
next
  fix i assume "i < length (rotate p (phaseB cnt p))"
  then have i: "i < cnt" by (simp add: phaseB_def)
  then have c: "0 < cnt" by simp
  let ?j = "(p + i) mod cnt"
  have j: "?j < cnt" using c by simp
  have "(cnt - ?j + p) mod cnt = (cnt - i + 0) mod cnt"
  proof -
    have "int ((cnt - ?j + p) mod cnt) = (int cnt + int p - (int p + int i) mod int cnt) mod int cnt"
      using j by (simp add: zmod_int of_nat_diff algebra_simps)
    also have "\<dots> = (int cnt + int p - (int p + int i)) mod int cnt"
      by (simp add: mod_diff_right_eq)
    also have "\<dots> = int ((cnt - i + 0) mod cnt)"
      using i by (simp add: zmod_int of_nat_diff)
    finally show ?thesis by simp
  qed
  then have "spinLineOpacity (int ?j) (int p) (int cnt) = spinLineOpacity (int i) 0 (int cnt)"
    using spinLineOpacity_nat [of ?j cnt p] spinLineOpacity_nat [of i cnt 0] i j c by simp
  moreover have "rotate p (phaseB cnt p) ! i = phaseB cnt p ! ?j"
    using i by (simp add: nth_rotate phaseB_def)
  moreover have "phaseB cnt p ! ?j = spinLineOpacity (int ?j) (int p) (int cnt)"
    using j unfolding phaseB_def by (subst nth_map) simp_all
  moreover have "gradientB cnt ! i = spinLineOpacity (int i) 0 (int cnt)"
    using i unfolding gradientB_def by (subst nth_map) simp_all
  ultimately show "rotate p (phaseB cnt p) ! i = gradientB cnt ! i"
    by (simp only:)
qed

section \<open>Starting, stopping and the rotating gradient\<close>

lemma displayedA_frame:
  "store s' = store s \<Longrightarrow> renderNode s' = renderNode s \<Longrightarrow> displayedA s' = displayedA s"
  by (simp add: displayedA_def opacityOfA_def [abs_def])

lemma stopB_Undefined:
  "stopB Undefined s
     = Inr (case spinInterval s of None \<Rightarrow> s
            | Some h \<Rightarrow> s\<lparr>intervals := (intervals s)(h := None)\<rparr>)"
  by (simp add: stopB_def invoke_def)

text \<open>
  Claim C3. \<open>start()\<close> directly followed by \<open>stop()\<close>, no timer firing in between, leaves
  the opacity of every tick element as it was; for a widget fresh from its constructor
  these are the construction-time values: \<open>i / ticks + 0.1\<close> in widget A, the gradient of
  \<open>_spinLineOpacity(i, 0, count)\<close> and rotation opacity 1 in widget B.
\<close>

theorem C3_start_then_stop:
  "displayedA (stopA (startA s)) = displayedA s
   \<and> listOpacitiesA (stopA (startA s)) = listOpacitiesA s
   \<and> listOpacitiesA (stopA (startA (SpinnerA ov)))
       = map (\<lambda>i. Some (tickOpacity (initialOptions ov) i)) [0..<ticks (initialOptions ov)]
   \<and> (\<exists>t'. stopB Undefined (startB t) = Inr t'
          \<and> displayedB t' = displayedB t \<and> rotateOpacities t' = rotateOpacities t)
   \<and> (\<exists>t'. stopB Undefined (startB (SpinnerB opts)) = Inr t'
          \<and> displayedB t' = gradientB (lines opts)
          \<and> rotateOpacities t' = replicate (lines opts) 1)"
proof -
  have a: "displayedA (stopA (startA s)) = displayedA s" for s
    by (rule displayedA_frame) (simp_all add: stopA_def startA_def)
  have b: "listOpacitiesA (stopA (startA s)) = listOpacitiesA s" for s
    by (rule listOpacitiesA_frame) (simp_all add: stopA_def startA_def)
  have c: "\<exists>t'. stopB Undefined (startB t) = Inr t'
          \<and> displayedB t' = displayedB t \<and> rotateOpacities t' = rotateOpacities t" for t
    by (simp add: stopB_Undefined startB_def Let_def displayedB_def rotateOpacities_def)
  have d: "\<exists>t'. stopB Undefined (startB (SpinnerB opts)) = Inr t'
          \<and> displayedB t' = gradientB (lines opts)
          \<and> rotateOpacities t' = replicate (lines opts) 1"
    using c [of "SpinnerB opts"] by (simp add: displayedB_SpinnerB rotateOpacities_SpinnerB)
  show ?thesis
    using a b c d by (simp add: listOpacitiesA_SpinnerA)
qed

text \<open>The theorem at widgets of four elements.\<close>

theorem C3_start_then_stop_witness:
  "listOpacitiesA (stopA (startA (SpinnerA (Some (withTicks 4)))))
     = [Some (1 / 10), Some (7 / 20), Some (3 / 5), Some (17 / 20)]
   \<and> (\<exists>t'. stopB Undefined (startB (SpinnerB (DEFAULT_OPTIONS_B\<lparr>lines := 4\<rparr>))) = Inr t'
          \<and> displayedB t' = [1, 5 / 32, 13 / 40, 97 / 160]
          \<and> rotateOpacities t' = [1, 1, 1, 1])"
proof -
  have a: "map (\<lambda>i. Some (tickOpacity (initialOptions (Some (withTicks 4))) i))
             [0..<ticks (initialOptions (Some (withTicks 4)))]
           = [Some (1 / 10), Some (7 / 20), Some (3 / 5), Some (17 / 20)]"
    by code_simp
  have b: "gradientB (lines (DEFAULT_OPTIONS_B\<lparr>lines := 4\<rparr>)) = [1, 5 / 32, 13 / 40, 97 / 160]"
    by code_simp
  have c: "replicate (lines (DEFAULT_OPTIONS_B\<lparr>lines := 4\<rparr>)) (1::real) = [1, 1, 1, 1]"
    by code_simp
  from C3_start_then_stop [of _ "Some (withTicks 4)" _ "DEFAULT_OPTIONS_B\<lparr>lines := 4\<rparr>"]
  show ?thesis unfolding a b c by blast
qed

lemma ticksA_running:
  assumes "reachableA s" "spinnerState s = ON" "0 < timeouts s" "tickOpacityModifiers s \<noteq> []"
  shows "\<exists>s'. ticksA n s = Some (Inr s') \<and> reachableA s'
           \<and> tickOpacityModifiers s' = rotate n (tickOpacityModifiers s)
           \<and> options s' = options s \<and> renderNode s' = renderNode s
           \<and> spinnerState s' = ON \<and> timeouts s' = timeouts s"
  using assms
proof (induction n arbitrary: s)
  case 0
  then show ?case by simp
next
  case (Suc n)
  from fireA_reachable [OF Suc.prems(1,3,4)] Suc.prems(2)
  obtain s1 where s1: "fireA s = Some (Inr s1)"
      "tickOpacityModifiers s1 = rotate1 (tickOpacityModifiers s)"
      "options s1 = options s" "renderNode s1 = renderNode s"
      "spinnerState s1 = ON" "timeouts s1 = timeouts s"
    by auto
  have r1: "reachableA s1" using Suc.prems(1) s1(1) by (rule reachableA.fired)
  have ne: "tickOpacityModifiers s1 \<noteq> []" using Suc.prems(4) s1(2) by simp
  have t1: "0 < timeouts s1" using Suc.prems(3) s1(6) by simp
  from Suc.IH [OF r1 s1(5) t1 ne]
  obtain s' where s': "ticksA n s1 = Some (Inr s')" "reachableA s'"
      "tickOpacityModifiers s' = rotate n (tickOpacityModifiers s1)"
      "options s' = options s1" "renderNode s' = renderNode s1"
      "spinnerState s' = ON" "timeouts s' = timeouts s1"
    by blast
  have "ticksA (Suc n) s = Some (Inr s')" by (simp add: s1(1) s'(1))
  moreover have "tickOpacityModifiers s' = rotate (Suc n) (tickOpacityModifiers s)"
    by (simp add: s'(3) s1(2) rotate1_rotate_swap)
  ultimately show ?case using s' s1 by simp
qed

lemma displayedA_invA:
  assumes "invA s"
  shows "displayedA s = map (opacityOfA s) [0..<ticks (options s)]"
  using assms by (simp add: invA_def displayedA_def newChain_def o_def)

lemma displayedA_rotation:
  assumes "invA s" and "tickOpacityModifiers s = rotate n [0..<ticks (options s)]"
  shows "rotate n (displayedA s)
           = map (\<lambda>i. Some (tickOpacity (options s) i)) [0..<ticks (options s)]"
proof -
  have "rotate n (displayedA s) = map (opacityOfA s) (rotate n [0..<ticks (options s)])"
    by (simp add: displayedA_invA [OF assms(1)] rotate_map)
  also have "\<dots> = listOpacitiesA s" by (simp add: listOpacitiesA_def assms(2))
  finally show ?thesis using assms(1) by (simp add: invA_def)
qed

lemma displayedA_SpinnerA:
  "displayedA (SpinnerA ov)
     = map (\<lambda>i. Some (tickOpacity (initialOptions ov) i)) [0..<ticks (initialOptions ov)]"
  using displayedA_rotation [of "SpinnerA ov" 0] invA_SpinnerA [of ov]
  by (simp add: SpinnerA_fields)

lemma mset_rotate1: "mset (rotate1 xs) = mset xs"
  by (cases xs) simp_all

lemma mset_rotate: "mset (rotate n xs) = mset xs"
  by (induction n) (simp_all add: mset_rotate1)

lemma mset_rotate_eq: "rotate n xs = ys \<Longrightarrow> mset xs = mset ys"
  using mset_rotate [of n xs] by simp

text \<open>
  Claim C4, amended. After any number \<open>n\<close> of scheduler ticks of a started widget the
  opacities over the fixed angular positions are a cyclic permutation of the initial
  gradient, so no value outside the multiset of the initial gradient is displayed. In
  widget A (at least one tick element) it is the shift by \<open>n\<close>: rotating the displayed
  sequence back by \<open>n\<close> gives the initial one. In widget B it is the shift by \<open>n - 1\<close>
  (and by 0 before the first tick): the interval callback draws phase \<open>t\<close> and increments
  \<open>t\<close> afterwards, so its first run draws the initial gradient once more.
\<close>

theorem C4_cyclic_shift:
  "(0 < ticks (initialOptions ov) \<longrightarrow>
      (\<exists>s'. ticksA n (startA (SpinnerA ov)) = Some (Inr s')
          \<and> rotate n (displayedA s') = displayedA (SpinnerA ov)
          \<and> mset (displayedA s') = mset (displayedA (SpinnerA ov))))
   \<and> (\<exists>t'. ticksB n 0 (startB (SpinnerB opts)) = Some (Inr t')
          \<and> rotate (n - 1) (displayedB t') = displayedB (SpinnerB opts)
          \<and> mset (displayedB t') = mset (displayedB (SpinnerB opts)))"
proof
  show "0 < ticks (initialOptions ov) \<longrightarrow>
      (\<exists>s'. ticksA n (startA (SpinnerA ov)) = Some (Inr s')
          \<and> rotate n (displayedA s') = displayedA (SpinnerA ov)
          \<and> mset (displayedA s') = mset (displayedA (SpinnerA ov)))"
  proof
    assume pos: "0 < ticks (initialOptions ov)"
    let ?s = "startA (SpinnerA ov)"
    have r: "reachableA ?s" by (intro reachableA.intros)
    have "spinnerState ?s = ON" "0 < timeouts ?s" by (simp_all add: startA_def)
    moreover have "tickOpacityModifiers ?s \<noteq> []"
      using pos by (simp add: startA_def SpinnerA_fields)
    ultimately obtain s' where s': "ticksA n ?s = Some (Inr s')" "reachableA s'"
        "tickOpacityModifiers s' = rotate n (tickOpacityModifiers ?s)" "options s' = options ?s"
      using ticksA_running [OF r, of n] by blast
    have o: "options s' = initialOptions ov" using s'(4) by (simp add: startA_def SpinnerA_fields)
    have l: "tickOpacityModifiers s' = rotate n [0..<ticks (options s')]"
      using s'(3) o by (simp add: startA_def SpinnerA_fields)
    have "rotate n (displayedA s') = displayedA (SpinnerA ov)"
      using displayedA_rotation [OF reachableA_invA [OF s'(2)] l]
      by (simp add: displayedA_SpinnerA o)
    then show "\<exists>s'. ticksA n ?s = Some (Inr s')
          \<and> rotate n (displayedA s') = displayedA (SpinnerA ov)
          \<and> mset (displayedA s') = mset (displayedA (SpinnerA ov))"
      using s'(1) mset_rotate_eq by blast
  qed
next
  let ?t = "startB (SpinnerB opts)"
  let ?c = "\<lparr>cl_count = lines opts, cl_t = 0\<rparr>"
  have inv: "invB ?t" by (intro startB_invB invB_SpinnerB)
  have i: "intervals ?t 0 = Some ?c" by (simp add: startB_def Let_def SpinnerB_fields)
  from ticksB_run [OF inv i, of n]
  obtain t' where t': "ticksB n 0 ?t = Some (Inr t')"
      "displayedB t' = (if n = 0 then displayedB ?t else phaseB (lines (optsB ?t)) (cl_t ?c + n - 1))"
    by blast
  have d: "displayedB ?t = gradientB (lines opts)"
    by (simp add: startB_def Let_def displayedB_def SpinnerB_fields gradientB_def o_def)
  have "rotate (n - 1) (displayedB t') = displayedB (SpinnerB opts)"
  proof (cases "n = 0")
    case True
    then show ?thesis using t'(2) d by (simp add: displayedB_SpinnerB)
  next
    case False
    then have "displayedB t' = phaseB (lines opts) (n - 1)"
      using t'(2) by (simp add: startB_def Let_def SpinnerB_fields)
    then show ?thesis by (simp add: rotate_phaseB displayedB_SpinnerB)
  qed
  then show "\<exists>t'. ticksB n 0 ?t = Some (Inr t')
          \<and> rotate (n - 1) (displayedB t') = displayedB (SpinnerB opts)
          \<and> mset (displayedB t') = mset (displayedB (SpinnerB opts))"
    using t'(1) mset_rotate_eq by blast
qed

text \<open>The theorem at widgets of four elements, after five ticks.\<close>

theorem C4_cyclic_shift_witness:
  "0 < ticks (initialOptions (Some (withTicks 4)))
   \<and> (\<exists>s'. ticksA 5 (startA (SpinnerA (Some (withTicks 4)))) = Some (Inr s')
          \<and> rotate 5 (displayedA s') = [Some (1 / 10), Some (7 / 20), Some (3 / 5), Some (17 / 20)])
   \<and> (\<exists>t'. ticksB 5 0 (startB (SpinnerB (DEFAULT_OPTIONS_B\<lparr>lines := 4\<rparr>))) = Some (Inr t')
          \<and> rotate 4 (displayedB t') = [1, 5 / 32, 13 / 40, 97 / 160])"
proof -
  have p: "0 < ticks (initialOptions (Some (withTicks 4)))" by code_simp
  have a: "displayedA (SpinnerA (Some (withTicks 4)))
             = [Some (1 / 10), Some (7 / 20), Some (3 / 5), Some (17 / 20)]"
    by code_simp
  have b: "displayedB (SpinnerB (DEFAULT_OPTIONS_B\<lparr>lines := 4\<rparr>)) = [1, 5 / 32, 13 / 40, 97 / 160]"
    by code_simp
  from C4_cyclic_shift [of "Some (withTicks 4)" 5 "DEFAULT_OPTIONS_B\<lparr>lines := 4\<rparr>"] p
  show ?thesis unfolding a b by auto
qed

text \<open>
  The claim as it is written, with the shift by the number of ticks, fails on widget B with
  four lines: after one tick the displayed opacities are the initial gradient itself, which
  differs from its shift by one position in either direction.
\<close>

theorem C4_counterexample:
  "map_option (map_sum id displayedB) (ticksB 1 0 (startB (SpinnerB (DEFAULT_OPTIONS_B\<lparr>lines := 4\<rparr>))))
     = Some (Inr [1, 5 / 32, 13 / 40, 97 / 160])
   \<and> displayedB (SpinnerB (DEFAULT_OPTIONS_B\<lparr>lines := 4\<rparr>)) = [1, 5 / 32, 13 / 40, 97 / 160]
   \<and> rotate 1 [1, 5 / 32, 13 / 40, 97 / 160] \<noteq> [1, 5 / 32, 13 / 40, 97 / 160 :: real]
   \<and> rotate 3 [1, 5 / 32, 13 / 40, 97 / 160] \<noteq> [1, 5 / 32, 13 / 40, 97 / 160 :: real]"
  by code_simp

section \<open>The constructors\<close>

lemma initialOptions_ticks: "o_ticks v = Some n \<Longrightarrow> ticks (initialOptions (Some v)) = n"
  by (simp add: initialOptions_def setOptions_def Let_def split: option.splits)

lemma distinct_tickAngle:
  assumes "0 < ticks opts"
  shows "distinct (map (tickAngle opts) [0..<ticks opts])"
proof -
  have "inj (tickAngle opts)"
    using assms by (auto simp: inj_def tickAngle_def angleIncrement_def)
  then show ?thesis by (simp add: distinct_map inj_on_def inj_def)
qed

lemma distinct_rotateZ:
  assumes "0 < lines opts"
  shows "distinct (map md_transform (rotateModifiers (SpinnerB opts)))"
proof -
  have "inj (\<lambda>i. RotateZ (PiTimes (rotationOffset opts * real i)))"
    using assms by (auto simp: inj_def rotationOffset_def)
  then show ?thesis by (simp add: SpinnerB_fields distinct_map o_def inj_on_def inj_def)
qed

lemma store_SpinnerA:
  "map (store (SpinnerA ov)) (tickOpacityModifiers (SpinnerA ov))
     = map (\<lambda>i. Some (newOpacityModifier (initialOptions ov) i)) [0..<ticks (initialOptions ov)]"
  by (simp add: SpinnerA_fields)

lemma distinct_positionsA:
  assumes "0 < ticks (initialOptions ov)"
  shows "distinct (map (\<lambda>r. map_option sm_transform (store (SpinnerA ov) r))
           (tickOpacityModifiers (SpinnerA ov)))"
proof -
  let ?opts = "initialOptions ov"
  have "inj (\<lambda>i. Some (TranslateOnCircle (circleRadius ?opts) (PiTimes (tickAngle ?opts i * (1 / 180)))))"
    using assms by (auto simp: inj_def tickAngle_def angleIncrement_def)
  moreover have "map (\<lambda>r. map_option sm_transform (store (SpinnerA ov) r))
           (tickOpacityModifiers (SpinnerA ov))
      = map (\<lambda>i. Some (TranslateOnCircle (circleRadius ?opts) (PiTimes (tickAngle ?opts i * (1 / 180)))))
          [0..<ticks ?opts]"
    by (simp add: SpinnerA_fields newOpacityModifier_def)
  ultimately show ?thesis by (simp add: distinct_map inj_on_def inj_def)
qed

lemma distinct_rotationsA:
  assumes "0 < ticks (initialOptions ov)"
  shows "distinct (map tc_rotationModifier (renderNode (SpinnerA ov)))"
proof -
  let ?opts = "initialOptions ov"
  have "inj (\<lambda>i. RotateZ (PiTimes (1 / 2 + 1 / real (ticks ?opts) * 2 * real i)))"
    using assms by (auto simp: inj_def)
  then show ?thesis
    by (simp add: SpinnerA_fields newChain_def o_def distinct_map inj_on_def inj_def)
qed

text \<open>
  Claim C5. A widget built for \<open>N > 0\<close> ticks (widget A) or lines (widget B) has exactly
  \<open>N\<close> tick elements: the array of opacity modifiers has length \<open>N\<close> and holds \<open>N\<close>
  different, allocated modifiers; the render tree has \<open>N\<close> chains, one surface each, and
  the \<open>i\<close>-th chain is the one of the \<open>i\<close>-th element, so every element is attached once.
  In widget A the opacity modifier of tick \<open>i\<close> places it on the circle at the angle
  \<open>i * (360 / N)\<close> degrees (\<open>angleIncrement * i * (Math.PI / 180)\<close> radians) and its chain
  rotates it by \<open>Math.PI / 2 + Math.PI / N * 2 * i\<close>; in widget B the rotation modifier of line
  \<open>i\<close> rotates it by \<open>i * (2 * Math.PI / N)\<close>. The positions stored in the constructed
  widgets, and these rotations, are pairwise distinct.
\<close>

theorem C5_constructor_creates_N_ticks:
  assumes "0 < N" and "ticks (initialOptions ov) = N" and "lines opts = N"
  shows "length (tickOpacityModifiers (SpinnerA ov)) = N
    \<and> distinct (tickOpacityModifiers (SpinnerA ov))
    \<and> dom (store (SpinnerA ov)) = set (tickOpacityModifiers (SpinnerA ov))
    \<and> length (renderNode (SpinnerA ov)) = N
    \<and> map tc_opacityModifier (renderNode (SpinnerA ov)) = tickOpacityModifiers (SpinnerA ov)
    \<and> map (tickAngle (initialOptions ov)) [0..<N] = map (\<lambda>i. real i * (360 / real N)) [0..<N]
    \<and> distinct (map (tickAngle (initialOptions ov)) [0..<N])
    \<and> map (store (SpinnerA ov)) (tickOpacityModifiers (SpinnerA ov))
        = map (\<lambda>i. Some
                 \<lparr>sm_transform =
                    TranslateOnCircle
                      (fst (size_opt (initialOptions ov)) * 0.55
                         - (if originCompensation (initialOptions ov)
                            then Math_round (snd (size_opt (initialOptions ov)) * 0.3) / 2 else 0))
                      (PiTimes (360 / real N * real i * (1 / 180))),
                  sm_opacity = real i / real N + 0.1\<rparr>) [0..<N]
    \<and> distinct (map (\<lambda>r. map_option sm_transform (store (SpinnerA ov) r))
          (tickOpacityModifiers (SpinnerA ov)))
    \<and> renderNode (SpinnerA ov)
        = map (\<lambda>i. \<lparr>tc_opacityModifier = i,
                     tc_rotationModifier = RotateZ (PiTimes (1 / 2 + 1 / real N * 2 * real i)),
                     tc_surface_size =
                       (Math_round (fst (size_opt (initialOptions ov)) * 0.05),
                        Math_round (snd (size_opt (initialOptions ov)) * 0.3)),
                     tc_surface_color = color (initialOptions ov)\<rparr>) [0..<N]
    \<and> distinct (map tc_rotationModifier (renderNode (SpinnerA ov)))
    \<and> length (spinLineModifiers (SpinnerB opts)) = N
    \<and> length (rotateModifiers (SpinnerB opts)) = N
    \<and> length (renderTree (SpinnerB opts)) = N
    \<and> map lc_rotateModifier (renderTree (SpinnerB opts)) = [0..<N]
    \<and> map lc_spinLineModifier (renderTree (SpinnerB opts)) = [0..<N]
    \<and> map md_transform (rotateModifiers (SpinnerB opts))
        = map (\<lambda>i. RotateZ (PiTimes (2 / real N * real i))) [0..<N]
    \<and> distinct (map md_transform (rotateModifiers (SpinnerB opts)))
    \<and> map md_transform (spinLineModifiers (SpinnerB opts))
        = replicate N (Translate (centerOffset opts) 0 0)
    \<and> map lc_surface (renderTree (SpinnerB opts))
        = replicate N \<lparr>sf_size = (lineWidth opts, lineHeight opts),
                        sf_backgroundColor = backgroundColor opts,
                        sf_borderRadius = borderRadius opts\<rparr>"
proof -
  have inv: "invA (SpinnerA ov)" by (rule invA_SpinnerA)
  have a1: "length (tickOpacityModifiers (SpinnerA ov)) = N"
    and a2: "distinct (tickOpacityModifiers (SpinnerA ov))"
    and a3: "dom (store (SpinnerA ov)) = set (tickOpacityModifiers (SpinnerA ov))"
    using inv assms(2) by (simp_all add: invA_def SpinnerA_fields)
  have a4: "length (renderNode (SpinnerA ov)) = N"
    and a5: "map tc_opacityModifier (renderNode (SpinnerA ov)) = tickOpacityModifiers (SpinnerA ov)"
    using assms(2) by (simp_all add: SpinnerA_fields o_def newChain_def map_idI)
  have a6: "map (tickAngle (initialOptions ov)) [0..<N] = map (\<lambda>i. real i * (360 / real N)) [0..<N]"
    using assms(2) by (simp add: tickAngle_def angleIncrement_def)
  have a7: "distinct (map (tickAngle (initialOptions ov)) [0..<N])"
    using distinct_tickAngle [of "initialOptions ov"] assms(1,2) by simp
  have a8: "map (store (SpinnerA ov)) (tickOpacityModifiers (SpinnerA ov))
        = map (\<lambda>i. Some
                 \<lparr>sm_transform =
                    TranslateOnCircle
                      (fst (size_opt (initialOptions ov)) * 0.55
                         - (if originCompensation (initialOptions ov)
                            then Math_round (snd (size_opt (initialOptions ov)) * 0.3) / 2 else 0))
                      (PiTimes (360 / real N * real i * (1 / 180))),
                  sm_opacity = real i / real N + 0.1\<rparr>) [0..<N]"
    unfolding store_SpinnerA assms(2)
    by (simp only: newOpacityModifier_def circleRadius_def radiusCompensation_def tickHeight_def
        tickAngle_def angleIncrement_def tickOpacity_def assms(2))
  have a9: "distinct (map (\<lambda>r. map_option sm_transform (store (SpinnerA ov) r))
          (tickOpacityModifiers (SpinnerA ov)))"
    using distinct_positionsA [of ov] assms(1,2) by simp
  have a10: "renderNode (SpinnerA ov)
        = map (\<lambda>i. \<lparr>tc_opacityModifier = i,
                     tc_rotationModifier = RotateZ (PiTimes (1 / 2 + 1 / real N * 2 * real i)),
                     tc_surface_size =
                       (Math_round (fst (size_opt (initialOptions ov)) * 0.05),
                        Math_round (snd (size_opt (initialOptions ov)) * 0.3)),
                     tc_surface_color = color (initialOptions ov)\<rparr>) [0..<N]"
    unfolding SpinnerA_fields assms(2)
    by (rule map_cong) (simp_all add: newChain_def tickWidth_def tickHeight_def assms(2))
  have a11: "distinct (map tc_rotationModifier (renderNode (SpinnerA ov)))"
    using distinct_rotationsA [of ov] assms(1,2) by simp
  have b1: "length (spinLineModifiers (SpinnerB opts)) = N"
    and b2: "length (rotateModifiers (SpinnerB opts)) = N"
    and b3: "length (renderTree (SpinnerB opts)) = N"
    and b4: "map lc_rotateModifier (renderTree (SpinnerB opts)) = [0..<N]"
    and b5: "map lc_spinLineModifier (renderTree (SpinnerB opts)) = [0..<N]"
    and b6: "map md_transform (rotateModifiers (SpinnerB opts))
        = map (\<lambda>i. RotateZ (PiTimes (2 / real N * real i))) [0..<N]"
    using assms(3) by (simp_all add: SpinnerB_fields o_def map_idI rotationOffset_def)
  have b7: "distinct (map md_transform (rotateModifiers (SpinnerB opts)))"
    using distinct_rotateZ [of opts] assms(1,3) by simp
  have b8: "map md_transform (spinLineModifiers (SpinnerB opts))
        = replicate N (Translate (centerOffset opts) 0 0)"
    using assms(3) by (simp add: SpinnerB_fields o_def map_replicate_const)
  have b9: "map lc_surface (renderTree (SpinnerB opts))
        = replicate N \<lparr>sf_size = (lineWidth opts, lineHeight opts),
                        sf_backgroundColor = backgroundColor opts,
                        sf_borderRadius = borderRadius opts\<rparr>"
    using assms(3) by (simp add: SpinnerB_fields o_def map_replicate_const)
  show ?thesis
    using a1 a2 a3 a4 a5 a6 a7 a8 a9 a10 a11 b1 b2 b3 b4 b5 b6 b7 b8 b9 by (intro conjI)
qed

text \<open>The theorem at widgets of four elements, with the constructed elements written out.\<close>

theorem C5_constructor_creates_N_ticks_witness:
  "(0::nat) < 4 \<and> ticks (initialOptions (Some (withTicks 4))) = 4
   \<and> lines (DEFAULT_OPTIONS_B\<lparr>lines := 4\<rparr>) = 4
   \<and> length (tickOpacityModifiers (SpinnerA (Some (withTicks 4)))) = 4
   \<and> map (store (SpinnerA (Some (withTicks 4)))) (tickOpacityModifiers (SpinnerA (Some (withTicks 4))))
       = [Some \<lparr>sm_transform = TranslateOnCircle (33 / 2) (PiTimes 0), sm_opacity = 1 / 10\<rparr>,
          Some \<lparr>sm_transform = TranslateOnCircle (33 / 2) (PiTimes (1 / 2)), sm_opacity = 7 / 20\<rparr>,
          Some \<lparr>sm_transform = TranslateOnCircle (33 / 2) (PiTimes 1), sm_opacity = 3 / 5\<rparr>,
          Some \<lparr>sm_transform = TranslateOnCircle (33 / 2) (PiTimes (3 / 2)), sm_opacity = 17 / 20\<rparr>]
   \<and> renderNode (SpinnerA (Some (withTicks 4)))
       = [\<lparr>tc_opacityModifier = 0, tc_rotationModifier = RotateZ (PiTimes (1 / 2)),
           tc_surface_size = (2, 9), tc_surface_color = ''grey''\<rparr>,
          \<lparr>tc_opacityModifier = 1, tc_rotationModifier = RotateZ (PiTimes 1),
           tc_surface_size = (2, 9), tc_surface_color = ''grey''\<rparr>,
          \<lparr>tc_opacityModifier = 2, tc_rotationModifier = RotateZ (PiTimes (3 / 2)),
           tc_surface_size = (2, 9), tc_surface_color = ''grey''\<rparr>,
          \<lparr>tc_opacityModifier = 3, tc_rotationModifier = RotateZ (PiTimes 2),
           tc_surface_size = (2, 9), tc_surface_color = ''grey''\<rparr>]
   \<and> distinct (map (\<lambda>r. map_option sm_transform (store (SpinnerA (Some (withTicks 4))) r))
         (tickOpacityModifiers (SpinnerA (Some (withTicks 4)))))
   \<and> length (spinLineModifiers (SpinnerB (DEFAULT_OPTIONS_B\<lparr>lines := 4\<rparr>))) = 4
   \<and> length (renderTree (SpinnerB (DEFAULT_OPTIONS_B\<lparr>lines := 4\<rparr>))) = 4
   \<and> map md_transform (rotateModifiers (SpinnerB (DEFAULT_OPTIONS_B\<lparr>lines := 4\<rparr>)))
       = [RotateZ (PiTimes 0), RotateZ (PiTimes (1 / 2)), RotateZ (PiTimes 1),
          RotateZ (PiTimes (3 / 2))]
   \<and> distinct (map md_transform (rotateModifiers (SpinnerB (DEFAULT_OPTIONS_B\<lparr>lines := 4\<rparr>))))"
proof -
  let ?ov = "Some (withTicks 4)"
  let ?o = "DEFAULT_OPTIONS_B\<lparr>lines := 4\<rparr>"
  have n: "(0::nat) < 4" by simp
  have a: "ticks (initialOptions ?ov) = 4" by code_simp
  have b: "lines ?o = 4" by code_simp
  have s: "map (\<lambda>i. Some
                 \<lparr>sm_transform =
                    TranslateOnCircle
                      (fst (size_opt (initialOptions ?ov)) * 0.55
                         - (if originCompensation (initialOptions ?ov)
                            then Math_round (snd (size_opt (initialOptions ?ov)) * 0.3) / 2 else 0))
                      (PiTimes (360 / real 4 * real i * (1 / 180))),
                  sm_opacity = real i / real 4 + 0.1\<rparr>) [0..<4]
       = [Some \<lparr>sm_transform = TranslateOnCircle (33 / 2) (PiTimes 0), sm_opacity = 1 / 10\<rparr>,
          Some \<lparr>sm_transform = TranslateOnCircle (33 / 2) (PiTimes (1 / 2)), sm_opacity = 7 / 20\<rparr>,
          Some \<lparr>sm_transform = TranslateOnCircle (33 / 2) (PiTimes 1), sm_opacity = 3 / 5\<rparr>,
          Some \<lparr>sm_transform = TranslateOnCircle (33 / 2) (PiTimes (3 / 2)), sm_opacity = 17 / 20\<rparr>]"
    by code_simp
  have r: "map (\<lambda>i. \<lparr>tc_opacityModifier = i,
                     tc_rotationModifier = RotateZ (PiTimes (1 / 2 + 1 / real 4 * 2 * real i)),
                     tc_surface_size =
                       (Math_round (fst (size_opt (initialOptions ?ov)) * 0.05),
                        Math_round (snd (size_opt (initialOptions ?ov)) * 0.3)),
                     tc_surface_color = color (initialOptions ?ov)\<rparr>) [0..<4]
       = [\<lparr>tc_opacityModifier = 0, tc_rotationModifier = RotateZ (PiTimes (1 / 2)),
           tc_surface_size = (2, 9), tc_surface_color = ''grey''\<rparr>,
          \<lparr>tc_opacityModifier = 1, tc_rotationModifier = RotateZ (PiTimes 1),
           tc_surface_size = (2, 9), tc_surface_color = ''grey''\<rparr>,
          \<lparr>tc_opacityModifier = 2, tc_rotationModifier = RotateZ (PiTimes (3 / 2)),
           tc_surface_size = (2, 9), tc_surface_color = ''grey''\<rparr>,
          \<lparr>tc_opacityModifier = 3, tc_rotationModifier = RotateZ (PiTimes 2),
           tc_surface_size = (2, 9), tc_surface_color = ''grey''\<rparr>]"
    by code_simp
  have t: "map (\<lambda>i. RotateZ (PiTimes (2 / real 4 * real i))) [0..<4]
       = [RotateZ (PiTimes 0), RotateZ (PiTimes (1 / 2)), RotateZ (PiTimes 1),
          RotateZ (PiTimes (3 / 2))]"
    by code_simp
  note inst = C5_constructor_creates_N_ticks [OF n a b, unfolded s r t]
  show ?thesis
    using n a b inst by (elim conjE) (intro conjI; assumption)
qed

lemma tickOpacity_mono:
  "0 < ticks opts \<Longrightarrow> i < j \<Longrightarrow> tickOpacity opts i < tickOpacity opts j"
  by (simp add: tickOpacity_def divide_strict_right_mono)

lemma spinLineOpacity_0:
  assumes "0 < cnt"
  shows "spinLineOpacity 0 0 (int cnt) = 1"
  using spinLineOpacity_nat [of 0 cnt 0] assms by simp

lemma spinLineOpacity_pos:
  assumes "0 < i" "i < cnt"
  shows "spinLineOpacity (int i) 0 (int cnt) = (real i / real cnt) * (real i / real cnt) * 0.9 + 0.1"
proof -
  have "(cnt - i + 0) mod cnt = cnt - i" using assms by simp
  moreover have "1 - real (cnt - i) / real cnt = real i / real cnt"
    using assms by (simp add: of_nat_diff field_simps)
  ultimately show ?thesis
    using spinLineOpacity_nat [of i cnt 0] assms by simp
qed

lemma falloff_mono: "a < b \<Longrightarrow> a * 0.9 + 0.1 < b * 0.9 + (0.1::real)"
  by simp

lemma spinLineOpacity_mono:
  assumes "0 < i" "i < j" "j < cnt"
  shows "spinLineOpacity (int i) 0 (int cnt) < spinLineOpacity (int j) 0 (int cnt)"
proof -
  have lt: "real i / real cnt < real j / real cnt"
    using assms by (simp add: divide_strict_right_mono)
  have nn: "0 \<le> real i / real cnt" by simp
  have "(real i / real cnt) * (real i / real cnt) < (real j / real cnt) * (real j / real cnt)"
    using lt lt nn nn by (rule mult_strict_mono')
  then have "(real i / real cnt) * (real i / real cnt) * 0.9 + 0.1
      < (real j / real cnt) * (real j / real cnt) * 0.9 + 0.1"
    by (rule falloff_mono)
  moreover have "i < cnt" "0 < j" using assms by simp_all
  ultimately show ?thesis
    using assms by (simp only: spinLineOpacity_pos)
qed

lemma spinLineOpacity_less_1:
  assumes "0 < j" "j < cnt"
  shows "spinLineOpacity (int j) 0 (int cnt) < 1"
proof -
  have lt: "real j / real cnt < 1" and nn: "0 \<le> real j / real cnt" using assms by simp_all
  have "(real j / real cnt) * (real j / real cnt) < 1 * 1"
    using lt lt nn nn by (rule mult_strict_mono')
  then have "(real j / real cnt) * (real j / real cnt) * 0.9 + 0.1 < 1 * 1 * 0.9 + 0.1"
    by (rule falloff_mono)
  then have "(real j / real cnt) * (real j / real cnt) * 0.9 + 0.1 < 1"
    by (simp only: mult_1)
  then show ?thesis
    using assms by (simp only: spinLineOpacity_pos)
qed

text \<open>
  Claim C6, amended. The constructor gives tick \<open>i\<close> of \<open>N\<close> the opacity \<open>i / N + 0.1\<close>
  in widget A and \<open>pos * pos * 0.9 + 0.1\<close> with \<open>pos = 1 - ((N - i) mod N) / N\<close> in widget
  B. The sequence of widget A increases strictly with the index, and for \<open>N = 4\<close> it is
  \<open>[0.1, 0.35, 0.6, 0.85]\<close>. The sequence of widget B is not monotonic over the indices
  \<open>0..<N\<close>: index 0 has the full opacity 1, index 1 the faintest one, and from index 1 on
  the opacities increase strictly and stay below 1.
\<close>

theorem C6_initial_opacities:
  assumes "ticks (initialOptions ov) = N" and "lines opts = N" and "i < j" and "j < N"
  shows "listOpacitiesA (SpinnerA ov) ! i = Some (real i / real N + 0.1)
    \<and> listOpacitiesA (SpinnerA ov) ! j = Some (real j / real N + 0.1)
    \<and> real i / real N + 0.1 < real j / real N + (0.1::real)
    \<and> displayedB (SpinnerB opts) ! i
        = (1 - real ((N - i) mod N) / real N) * (1 - real ((N - i) mod N) / real N) * 0.9 + 0.1
    \<and> displayedB (SpinnerB opts) ! j
        = (1 - real ((N - j) mod N) / real N) * (1 - real ((N - j) mod N) / real N) * 0.9 + 0.1
    \<and> displayedB (SpinnerB opts) ! 0 = 1
    \<and> displayedB (SpinnerB opts) ! j < 1
    \<and> (0 < i \<longrightarrow> displayedB (SpinnerB opts) ! i < displayedB (SpinnerB opts) ! j)
    \<and> listOpacitiesA (SpinnerA (Some (withTicks 4)))
        = [Some 0.1, Some 0.35, Some 0.6, Some 0.85]"
proof -
  have i: "i < N" and N: "0 < N" and j0: "0 < j" using assms(3,4) by simp_all
  have la: "listOpacitiesA (SpinnerA ov) ! k = Some (real k / real N + 0.1)" if "k < N" for k
    using that assms(1) by (simp add: listOpacitiesA_SpinnerA tickOpacity_def)
  have mono: "real i / real N + 0.1 < real j / real N + (0.1::real)"
    using tickOpacity_mono [of "initialOptions ov" i j] assms(1,3) N
    by (simp add: tickOpacity_def)
  have db: "displayedB (SpinnerB opts) ! k = spinLineOpacity (int k) 0 (int N)" if "k < N" for k
    using that assms(2) by (simp add: displayedB_SpinnerB gradientB_def)
  have fb: "displayedB (SpinnerB opts) ! k
        = (1 - real ((N - k) mod N) / real N) * (1 - real ((N - k) mod N) / real N) * 0.9 + 0.1"
    if "k < N" for k
    using that spinLineOpacity_nat [of k N 0] N by (simp add: db)
  have b0: "displayedB (SpinnerB opts) ! 0 = 1"
    using spinLineOpacity_0 [OF N] db [OF N] by simp
  have bj: "displayedB (SpinnerB opts) ! j < 1"
    using spinLineOpacity_less_1 [OF j0 assms(4)] by (simp add: db assms(4))
  have bm: "0 < i \<longrightarrow> displayedB (SpinnerB opts) ! i < displayedB (SpinnerB opts) ! j"
    using spinLineOpacity_mono [of i j N] assms(3,4) i by (simp add: db)
  have four: "listOpacitiesA (SpinnerA (Some (withTicks 4)))
        = [Some 0.1, Some 0.35, Some 0.6, Some 0.85]"
    by code_simp
  show ?thesis
    using la [OF i] la [OF assms(4)] mono fb [OF i] fb [OF assms(4)] b0 bj bm four
    by (intro conjI)
qed

text \<open>The theorem at widgets of four elements, for the indices 1 and 2.\<close>

theorem C6_initial_opacities_witness:
  "ticks (initialOptions (Some (withTicks 4))) = 4 \<and> lines (DEFAULT_OPTIONS_B\<lparr>lines := 4\<rparr>) = 4
   \<and> (1::nat) < 2 \<and> (2::nat) < 4
   \<and> listOpacitiesA (SpinnerA (Some (withTicks 4))) ! 1 = Some (1 / 4 + 0.1)
   \<and> displayedB (SpinnerB (DEFAULT_OPTIONS_B\<lparr>lines := 4\<rparr>)) ! 0 = 1
   \<and> displayedB (SpinnerB (DEFAULT_OPTIONS_B\<lparr>lines := 4\<rparr>)) ! 1
       < displayedB (SpinnerB (DEFAULT_OPTIONS_B\<lparr>lines := 4\<rparr>)) ! 2
   \<and> displayedB (SpinnerB (DEFAULT_OPTIONS_B\<lparr>lines := 4\<rparr>)) ! 2 < 1"
proof -
  have a: "ticks (initialOptions (Some (withTicks 4))) = 4" by code_simp
  have b: "lines (DEFAULT_OPTIONS_B\<lparr>lines := 4\<rparr>) = 4" by code_simp
  have c: "(1::nat) < 2" by simp
  have d: "(2::nat) < 4" by simp
  from C6_initial_opacities [OF a b c d] a b c d show ?thesis by simp
qed

text \<open>
  The claim as it is written fails on widget B with four lines: its initial sequence
  starts at the full opacity and drops, so it is not a monotonic gradient from faint to full.
\<close>

theorem C6_counterexample:
  "displayedB (SpinnerB (DEFAULT_OPTIONS_B\<lparr>lines := 4\<rparr>)) = [1, 5 / 32, 13 / 40, 97 / 160]
   \<and> \<not> sorted (displayedB (SpinnerB (DEFAULT_OPTIONS_B\<lparr>lines := 4\<rparr>)))
   \<and> \<not> sorted (rev (displayedB (SpinnerB (DEFAULT_OPTIONS_B\<lparr>lines := 4\<rparr>))))
   \<and> displayedB (SpinnerB (DEFAULT_OPTIONS_B\<lparr>lines := 4\<rparr>)) ! 1
       < displayedB (SpinnerB (DEFAULT_OPTIONS_B\<lparr>lines := 4\<rparr>)) ! 0"
  by code_simp

section \<open>Fading out\<close>

lemma fade_queues:
  "\<exists>s'. fade args s = Inr s'
     \<and> map md_queue (rotateModifiers s')
        = map (\<lambda>i. md_queue (rotateModifiers s ! i) @
                 [fadeTransition s (fst (fadeArguments (optsB s) args))
                    (snd (fadeArguments (optsB s) args)) i])
            [0..<length (rotateModifiers s)]
     \<and> rotateOpacities s' = rotateOpacities s \<and> displayedB s' = displayedB s
     \<and> called s' = called s \<and> intervals s' = intervals s \<and> spinInterval s' = spinInterval s
     \<and> optsB s' = optsB s \<and> length (rotateModifiers s') = length (rotateModifiers s)"
proof -
  let ?s' = "s\<lparr>rotateModifiers :=
      updatedUpto (length (rotateModifiers s))
        (\<lambda>i m. m\<lparr>md_queue := md_queue m @
            [\<lparr>tr_target = 0, tr_duration = fst (fadeArguments (optsB s) args),
              tr_curve = fadeCurve (optsB s),
              tr_callback = (if i = 0 then StopWith (snd (fadeArguments (optsB s) args))
                             else NoCallback)\<rparr>]\<rparr>)
        (rotateModifiers s)\<rparr>"
  have "map md_queue (rotateModifiers ?s')
        = map (\<lambda>i. md_queue (rotateModifiers s ! i) @
                 [fadeTransition s (fst (fadeArguments (optsB s) args))
                    (snd (fadeArguments (optsB s) args)) i])
            [0..<length (rotateModifiers s)]"
    by (rule nth_equalityI) (simp_all add: nth_updatedUpto fadeTransition_def)
  moreover have "rotateOpacities ?s' = rotateOpacities s"
    by (rule nth_equalityI) (simp_all add: rotateOpacities_def nth_updatedUpto)
  ultimately show ?thesis
    by (intro exI [of _ ?s']) (simp add: fade_result displayedB_def)
qed

lemma completeTransition_pending:
  assumes "fadePending (fadeTransition s0 t (Fn c)) done (rotateModifiers st)"
    and "i < length (rotateModifiers st)" and "i \<notin> done"
    and "called st = called s0 @ (if 0 \<in> done then [c] else [])"
    and "0 \<in> done \<longrightarrow> (\<forall>h. spinInterval st = Some h \<longrightarrow> intervals st h = None)"
  shows "\<exists>st'. completeTransition i st = Some (Inr st')
           \<and> fadePending (fadeTransition s0 t (Fn c)) (insert i done) (rotateModifiers st')
           \<and> length (rotateModifiers st') = length (rotateModifiers st)
           \<and> called st' = called s0 @ (if 0 \<in> insert i done then [c] else [])
           \<and> displayedB st' = displayedB st \<and> spinInterval st' = spinInterval st
           \<and> (0 \<in> insert i done \<longrightarrow>
                (\<forall>h. spinInterval st' = Some h \<longrightarrow> intervals st' h = None))"
proof -
  let ?tr = "fadeTransition s0 t (Fn c)"
  have q: "md_queue (rotateModifiers st ! i) = [?tr i]"
    using assms(1,2,3) by (simp add: fadePending_def)
  let ?ms = "(rotateModifiers st)[i := (rotateModifiers st ! i)\<lparr>md_opacity := tr_target (?tr i), md_queue := []\<rparr>]"
  let ?s1 = "st\<lparr>rotateModifiers := ?ms\<rparr>"
  have p: "fadePending ?tr (insert i done) ?ms"
    using assms(1,2) by (auto simp: fadePending_def nth_list_update)
  show ?thesis
  proof (cases "i = 0")
    case True
    let ?s2 = "(case spinInterval ?s1 of None \<Rightarrow> ?s1
               | Some h \<Rightarrow> ?s1\<lparr>intervals := (intervals ?s1)(h := None)\<rparr>)\<lparr>called := called st @ [c]\<rparr>"
    have st: "stopB (Fn c) ?s1 = Inr ?s2"
      by (simp add: stopB_def invoke_def split: option.splits)
    have "completeTransition i st = Some (Inr ?s2)"
      using assms(2) q True st by (simp add: completeTransition_def Let_def fadeTransition_def)
    moreover have "rotateModifiers ?s2 = ?ms" by (simp split: option.splits)
    moreover have "called ?s2 = called s0 @ [c]"
      using assms(3,4) True by simp
    moreover have "displayedB ?s2 = displayedB st"
      by (simp add: displayedB_def split: option.splits)
    moreover have "\<forall>h. spinInterval ?s2 = Some h \<longrightarrow> intervals ?s2 h = None"
      by (simp split: option.splits)
    moreover have "spinInterval ?s2 = spinInterval st"
      by (simp split: option.splits)
    ultimately show ?thesis
      using p True by (intro exI [of _ ?s2]) simp
  next
    case False
    have "completeTransition i st = Some (Inr ?s1)"
      using assms(2) q False by (simp add: completeTransition_def Let_def fadeTransition_def)
    moreover have "displayedB ?s1 = displayedB st" by (simp add: displayedB_def)
    ultimately show ?thesis
      using p False assms(4,5) by (intro exI [of _ ?s1]) simp
  qed
qed

lemma completeAll_pending:
  assumes "fadePending (fadeTransition s0 t (Fn c)) done (rotateModifiers st)"
    and "distinct order" and "set order \<subseteq> {0..<length (rotateModifiers st)}"
    and "set order \<inter> done = {}"
    and "called st = called s0 @ (if 0 \<in> done then [c] else [])"
    and "0 \<in> done \<longrightarrow> (\<forall>h. spinInterval st = Some h \<longrightarrow> intervals st h = None)"
  shows "\<exists>st'. completeAll order st = Some (Inr st')
           \<and> fadePending (fadeTransition s0 t (Fn c)) (done \<union> set order) (rotateModifiers st')
           \<and> length (rotateModifiers st') = length (rotateModifiers st)
           \<and> called st' = called s0 @ (if 0 \<in> done \<union> set order then [c] else [])
           \<and> displayedB st' = displayedB st \<and> spinInterval st' = spinInterval st
           \<and> (0 \<in> done \<union> set order \<longrightarrow>
                (\<forall>h. spinInterval st' = Some h \<longrightarrow> intervals st' h = None))"
  using assms
proof (induction order arbitrary: "done" st)
  case Nil
  then show ?case by simp
next
  case (Cons i order)
  have i: "i < length (rotateModifiers st)" "i \<notin> done" using Cons.prems(3,4) by auto
  from completeTransition_pending [OF Cons.prems(1) i Cons.prems(5,6)]
  obtain s1 where s1: "completeTransition i st = Some (Inr s1)"
      "fadePending (fadeTransition s0 t (Fn c)) (insert i done) (rotateModifiers s1)"
      "length (rotateModifiers s1) = length (rotateModifiers st)"
      "called s1 = called s0 @ (if 0 \<in> insert i done then [c] else [])"
      "displayedB s1 = displayedB st" "spinInterval s1 = spinInterval st"
      "0 \<in> insert i done \<longrightarrow> (\<forall>h. spinInterval s1 = Some h \<longrightarrow> intervals s1 h = None)"
    by blast
  have d: "distinct order" and sub: "set order \<subseteq> {0..<length (rotateModifiers s1)}"
    and dis: "set order \<inter> insert i done = {}"
    using Cons.prems(2,3,4) s1(3) by auto
  from Cons.IH [OF s1(2) d sub dis s1(4,7)]
  obtain st' where st': "completeAll order s1 = Some (Inr st')"
      "fadePending (fadeTransition s0 t (Fn c)) (insert i done \<union> set order) (rotateModifiers st')"
      "length (rotateModifiers st') = length (rotateModifiers s1)"
      "called st' = called s0 @ (if 0 \<in> insert i done \<union> set order then [c] else [])"
      "displayedB st' = displayedB s1" "spinInterval st' = spinInterval s1"
      "0 \<in> insert i done \<union> set order \<longrightarrow>
         (\<forall>h. spinInterval st' = Some h \<longrightarrow> intervals st' h = None)"
    by blast
  have "completeAll (i # order) st = Some (Inr st')" by (simp add: s1(1) st'(1))
  moreover have "insert i done \<union> set order = done \<union> set (i # order)" by auto
  ultimately show ?case using st' s1(3,5,6) by (intro exI [of _ st']) simp
qed

lemma fadePending_all:
  assumes "fadePending tr {0..<length ms} ms" and "\<And>i. tr_target (tr i) = 0"
  shows "map md_opacity ms = replicate (length ms) 0"
  using assms by (intro nth_equalityI) (simp_all add: fadePending_def)

lemma fadePending_start:
  assumes "map md_queue ms = map (\<lambda>i. [tr i]) [0..<length ms]"
  shows "fadePending tr {} ms"
  unfolding fadePending_def
proof (intro allI impI)
  fix i assume i: "i < length ms"
  have "md_queue (ms ! i) = map md_queue ms ! i" using i by simp
  also have "\<dots> = [tr i]" using i by (simp add: assms)
  finally show "if i \<in> {} then md_opacity (ms ! i) = tr_target (tr i) \<and> md_queue (ms ! i) = []
      else md_queue (ms ! i) = [tr i]"
    by simp
qed

text \<open>
  Claim C8, amended. \<open>fade(duration, callback)\<close>, called with both arguments on a widget
  B with at least one line and no animation pending, queues on every rotation modifier an
  animation of the opacity to 0 over the given duration, the completion callback
  \<open>stop.bind(this, callback)\<close> on the one of index 0 only; called as \<open>fade(callback)\<close> it
  does the same over \<open>options.fadeDuration\<close>. In whatever order the animations complete,
  after the first \<open>k\<close> completions the callback has been invoked once if index 0 is among
  them and not at all otherwise; when all have completed, every opacity is 0, the callback
  has been invoked exactly once, and \<open>stop\<close> has cleared the interval timer of
  \<open>spinInterval\<close>.
\<close>

theorem C8_fade_calls_back_once:
  assumes "rotateModifiers s \<noteq> []"
    and "list_all (\<lambda>m. md_queue m = []) (rotateModifiers s)"
    and "distinct order" and "set order = {0..<length (rotateModifiers s)}"
    and "args = [t, Fn c] \<or> args = [Fn c] \<and> t = Num (fadeDuration (optsB s))"
  shows "\<exists>s1. fade args s = Inr s1
      \<and> map md_queue (rotateModifiers s1)
          = map (\<lambda>i. [\<lparr>tr_target = 0, tr_duration = t, tr_curve = fadeCurve (optsB s),
                         tr_callback = (if i = 0 then StopWith (Fn c) else NoCallback)\<rparr>])
              [0..<length (rotateModifiers s)]
      \<and> called s1 = called s
      \<and> (\<exists>s2. completeAll (take k order) s1 = Some (Inr s2)
             \<and> called s2 = called s @ (if 0 \<in> set (take k order) then [c] else []))
      \<and> (\<exists>s'. completeAll order s1 = Some (Inr s')
             \<and> rotateOpacities s' = replicate (length (rotateModifiers s)) 0
             \<and> called s' = called s @ [c]
             \<and> (case spinInterval s of None \<Rightarrow> True | Some h \<Rightarrow> intervals s' h = None))"
proof -
  let ?N = "length (rotateModifiers s)"
  let ?tr = "fadeTransition s t (Fn c)"
  have args: "fadeArguments (optsB s) args = (t, Fn c)"
    using assms(5) by (auto simp: fadeArguments_def argument_def)
  from fade_queues [of args s]
  obtain s1 where s1: "fade args s = Inr s1"
      "map md_queue (rotateModifiers s1)
        = map (\<lambda>i. md_queue (rotateModifiers s ! i) @ [?tr i]) [0..<?N]"
      "called s1 = called s" "spinInterval s1 = spinInterval s"
      "length (rotateModifiers s1) = ?N"
    unfolding args by auto
  have idle: "md_queue (rotateModifiers s ! i) = []" if "i < ?N" for i
    using assms(2) that by (simp add: list_all_length)
  have q: "map md_queue (rotateModifiers s1) = map (\<lambda>i. [?tr i]) [0..<?N]"
    unfolding s1(2) by (rule map_cong) (simp_all add: idle)
  have q': "map md_queue (rotateModifiers s1)
          = map (\<lambda>i. [\<lparr>tr_target = 0, tr_duration = t, tr_curve = fadeCurve (optsB s),
                         tr_callback = (if i = 0 then StopWith (Fn c) else NoCallback)\<rparr>])
              [0..<?N]"
    using q by (simp add: fadeTransition_def)
  have p0: "fadePending ?tr {} (rotateModifiers s1)"
    using q by (intro fadePending_start) (simp add: s1(5))
  have c0: "called s1 = called s @ (if 0 \<in> {} then [c] else [])" by (simp add: s1(3))
  have i0: "0 \<in> {} \<longrightarrow> (\<forall>h. spinInterval s1 = Some h \<longrightarrow> intervals s1 h = None)" by simp
  have part: "\<exists>s2. completeAll (take k order) s1 = Some (Inr s2)
             \<and> called s2 = called s @ (if 0 \<in> set (take k order) then [c] else [])"
  proof -
    have "distinct (take k order)" using assms(3) by simp
    moreover have "set (take k order) \<subseteq> {0..<length (rotateModifiers s1)}"
      using assms(4) set_take_subset [of k order] by (simp add: s1(5))
    moreover have "set (take k order) \<inter> {} = {}" by simp
    ultimately show ?thesis
      using completeAll_pending [OF p0 _ _ _ c0 i0, of "take k order"] by auto
  qed
  have whole: "\<exists>s'. completeAll order s1 = Some (Inr s')
             \<and> rotateOpacities s' = replicate ?N 0
             \<and> called s' = called s @ [c]
             \<and> (case spinInterval s of None \<Rightarrow> True | Some h \<Rightarrow> intervals s' h = None)"
  proof -
    have sub: "set order \<subseteq> {0..<length (rotateModifiers s1)}"
      using assms(4) by (simp add: s1(5))
    have dis: "set order \<inter> {} = {}" by simp
    from completeAll_pending [OF p0 assms(3) sub dis c0 i0]
    obtain s' where s': "completeAll order s1 = Some (Inr s')"
        "fadePending ?tr ({} \<union> set order) (rotateModifiers s')"
        "length (rotateModifiers s') = length (rotateModifiers s1)"
        "called s' = called s @ (if 0 \<in> {} \<union> set order then [c] else [])"
        "spinInterval s' = spinInterval s1"
        "0 \<in> {} \<union> set order \<longrightarrow> (\<forall>h. spinInterval s' = Some h \<longrightarrow> intervals s' h = None)"
      by blast
    have zero: "0 \<in> set order" using assms(1,4) by simp
    have "fadePending ?tr {0..<length (rotateModifiers s')} (rotateModifiers s')"
      using s'(2,3) assms(4) by (simp add: s1(5))
    then have "rotateOpacities s' = replicate ?N 0"
      using fadePending_all [of ?tr "rotateModifiers s'"] s'(3)
      by (simp add: rotateOpacities_def fadeTransition_def s1(5))
    moreover have "called s' = called s @ [c]" using s'(4) zero by simp
    moreover have "case spinInterval s of None \<Rightarrow> True | Some h \<Rightarrow> intervals s' h = None"
      using s'(5,6) zero s1(4) by (simp split: option.splits)
    ultimately show ?thesis using s'(1) by blast
  qed
  show ?thesis
    using s1(1,3) q' part whole by blast
qed

text \<open>
  The theorem at a spinning widget of four lines, for both forms of the call, the
  animations completing in the order 2, 0, 3, 1; after the first of them, the callback has
  not been invoked.
\<close>

theorem C8_fade_calls_back_once_witness:
  "(\<exists>s1. fade [Num 500, Fn 7] (startB (SpinnerB (DEFAULT_OPTIONS_B\<lparr>lines := 4\<rparr>))) = Inr s1
      \<and> (\<exists>s2. completeAll [2] s1 = Some (Inr s2) \<and> called s2 = [])
      \<and> (\<exists>s'. completeAll [2, 0, 3, 1] s1 = Some (Inr s')
             \<and> rotateOpacities s' = [0, 0, 0, 0] \<and> called s' = [7] \<and> intervals s' 0 = None))
   \<and> (\<exists>s1. fade [Fn 7] (startB (SpinnerB (DEFAULT_OPTIONS_B\<lparr>lines := 4\<rparr>))) = Inr s1
      \<and> (\<exists>s'. completeAll [2, 0, 3, 1] s1 = Some (Inr s')
             \<and> rotateOpacities s' = [0, 0, 0, 0] \<and> called s' = [7]))"
proof -
  let ?s = "startB (SpinnerB (DEFAULT_OPTIONS_B\<lparr>lines := 4\<rparr>))"
  have a: "rotateModifiers ?s \<noteq> []" by code_simp
  have b: "list_all (\<lambda>m. md_queue m = []) (rotateModifiers ?s)" by code_simp
  have c: "distinct [2, 0, 3, 1 :: nat]" by simp
  have d: "set [2, 0, 3, 1] = {0..<length (rotateModifiers ?s)}" by code_simp
  have e: "length (rotateModifiers ?s) = 4" by code_simp
  have f: "called ?s = []" by code_simp
  have g: "spinInterval ?s = Some 0" by code_simp
  have two: "[Num 500, Fn 7] = [Num 500, Fn 7]
      \<or> [Num 500, Fn 7] = [Fn 7] \<and> Num 500 = Num (fadeDuration (optsB ?s))"
    by simp
  have one: "[Fn 7] = [Num 1000, Fn 7] \<or> [Fn 7] = [Fn 7] \<and> Num 1000 = Num (fadeDuration (optsB ?s))"
    by code_simp
  have first: "\<exists>s1. fade [Num 500, Fn 7] ?s = Inr s1
      \<and> (\<exists>s2. completeAll [2] s1 = Some (Inr s2) \<and> called s2 = [])
      \<and> (\<exists>s'. completeAll [2, 0, 3, 1] s1 = Some (Inr s')
             \<and> rotateOpacities s' = [0, 0, 0, 0] \<and> called s' = [7] \<and> intervals s' 0 = None)"
    using C8_fade_calls_back_once [OF a b c d two, of 1]
    unfolding e f g by (simp add: numeral_eq_Suc) blast
  have second: "\<exists>s1. fade [Fn 7] ?s = Inr s1
      \<and> (\<exists>s'. completeAll [2, 0, 3, 1] s1 = Some (Inr s')
             \<and> rotateOpacities s' = [0, 0, 0, 0] \<and> called s' = [7])"
    using C8_fade_calls_back_once [OF a b c d one, of 1]
    unfolding e f g by (simp add: numeral_eq_Suc) blast
  show ?thesis using first second by (intro conjI)
qed

text \<open>
  The claim as it is written, with the callback as the optional argument, fails on a
  widget of four lines for the call \<open>fade(500)\<close>: the animations are queued with the
  duration 1000, not 500, and when the one of index 0 completes, \<open>stop\<close> calls the number
  500 as a function, which raises a TypeError.
\<close>

theorem C8_counterexample:
  "map_sum id (map (map tr_duration \<circ> md_queue) \<circ> rotateModifiers)
      (fade [Num 500] (SpinnerB (DEFAULT_OPTIONS_B\<lparr>lines := 4\<rparr>)))
     = Inr [[Num 1000], [Num 1000], [Num 1000], [Num 1000]]
   \<and> map_option (map_sum id called)
       (fadeThenComplete [Num 500] [0, 1, 2, 3] (SpinnerB (DEFAULT_OPTIONS_B\<lparr>lines := 4\<rparr>)))
     = Some (Inl TypeError)"
  by code_simp

section \<open>Reset, overlapping starts and the arguments of fade\<close>

lemma reachableB_ticksB:
  "reachableB opts s \<Longrightarrow> ticksB n h s = Some (Inr s') \<Longrightarrow> reachableB opts s'"
proof (induction n arbitrary: s)
  case 0
  then show ?case by simp
next
  case (Suc n)
  from Suc.prems(2) obtain s1 where s1: "tickB h s = Some (Inr s1)" "ticksB n h s1 = Some (Inr s')"
    by (auto split: option.splits sum.splits)
  have "reachableB opts s1" using Suc.prems(1) s1(1) by (rule reachableB.tickedB)
  then show ?case using s1(2) by (rule Suc.IH)
qed

text \<open>
  Claim C7. In every reachable state of widget B, whatever timers have fired before,
  \<open>reset(cb)\<close> runs without error, gives every spin line the opacity the constructor gave
  it and every rotation modifier the opacity 1 it had at construction, and then stops:
  the interval timer of \<open>spinInterval\<close> is cleared and a callback that was passed is
  invoked once.
\<close>

theorem C7_reset_restores_initial:
  assumes "reachableB opts s"
  shows "(\<exists>s'. reset (Fn c) s = Inr s'
           \<and> displayedB s' = displayedB (SpinnerB opts)
           \<and> rotateOpacities s' = rotateOpacities (SpinnerB opts)
           \<and> called s' = called s @ [c]
           \<and> intervals s' = (case spinInterval s of None \<Rightarrow> intervals s
                              | Some h \<Rightarrow> (intervals s)(h := None)))
       \<and> (\<exists>s'. reset Undefined s = Inr s'
           \<and> displayedB s' = displayedB (SpinnerB opts)
           \<and> rotateOpacities s' = rotateOpacities (SpinnerB opts)
           \<and> called s' = called s
           \<and> intervals s' = (case spinInterval s of None \<Rightarrow> intervals s
                              | Some h \<Rightarrow> (intervals s)(h := None)))"
proof -
  have inv: "invB s" and o: "optsB s = opts"
    using reachableB_invB [OF assms] by simp_all
  have len: "length (rotateModifiers s) = length (spinLineModifiers s)"
    and n: "length (spinLineModifiers s) = lines opts"
    and n': "length (rotateModifiers s) = lines opts"
    using inv o by (simp_all add: invB_def)
  let ?s1 = "s\<lparr>spinLineModifiers :=
             updatedUpto (length (spinLineModifiers s))
               (\<lambda>i m. m\<lparr>md_opacity := spinLineOpacity (int i) 0
                            (int (length (spinLineModifiers s))), md_queue := []\<rparr>)
               (spinLineModifiers s),
           rotateModifiers :=
             updatedUpto (length (spinLineModifiers s))
               (\<lambda>i m. m\<lparr>md_opacity := 1, md_queue := []\<rparr>) (rotateModifiers s)\<rparr>"
  have r: "reset cb s = stopB cb ?s1" for cb by (rule reset_result [OF len])
  have d: "displayedB ?s1 = displayedB (SpinnerB opts)"
    by (simp add: displayedB_reset_state displayedB_SpinnerB gradientB_def flip: n)
  have ro: "rotateOpacities ?s1 = rotateOpacities (SpinnerB opts)"
    using rotateOpacities_reset_state [of s] by (simp add: rotateOpacities_SpinnerB n n')
  have st: "\<exists>s'. stopB cb ?s1 = Inr s' \<and> displayedB s' = displayedB ?s1
       \<and> rotateOpacities s' = rotateOpacities ?s1
       \<and> called s' = (case cb of Fn c \<Rightarrow> called s @ [c] | _ \<Rightarrow> called s)
       \<and> intervals s' = (case spinInterval s of None \<Rightarrow> intervals s
                          | Some h \<Rightarrow> (intervals s)(h := None))"
    if "cb = Undefined \<or> (\<exists>c. cb = Fn c)" for cb
    using that
    by (auto simp: stopB_def invoke_def displayedB_def rotateOpacities_def split: option.splits)
  show ?thesis
    using st [of "Fn c"] st [of Undefined] by (simp add: r d ro)
qed

text \<open>The theorem at a widget of four lines that has been started and has ticked twice.\<close>

theorem C7_reset_restores_initial_witness:
  "\<exists>s. ticksB 2 0 (startB (SpinnerB (DEFAULT_OPTIONS_B\<lparr>lines := 4\<rparr>))) = Some (Inr s)
      \<and> displayedB s = [97 / 160, 1, 5 / 32, 13 / 40]
      \<and> (\<exists>s'. reset (Fn 7) s = Inr s'
             \<and> displayedB s' = [1, 5 / 32, 13 / 40, 97 / 160]
             \<and> rotateOpacities s' = [1, 1, 1, 1] \<and> called s' = called s @ [7])"
proof -
  let ?o = "DEFAULT_OPTIONS_B\<lparr>lines := 4\<rparr>"
  have v: "map_option (map_sum id displayedB) (ticksB 2 0 (startB (SpinnerB ?o)))
             = Some (Inr [97 / 160, 1, 5 / 32, 13 / 40])"
    by code_simp
  then obtain s where s: "ticksB 2 0 (startB (SpinnerB ?o)) = Some (Inr s)"
      "displayedB s = [97 / 160, 1, 5 / 32, 13 / 40]"
    by (cases "ticksB 2 0 (startB (SpinnerB ?o))") (auto elim: sum.exhaust [of _ False] simp: map_sum_def split: sum.splits)
  have r: "reachableB ?o s"
    using reachableB.startedB [OF reachableB.constructedB] s(1) by (rule reachableB_ticksB)
  have a: "displayedB (SpinnerB ?o) = [1, 5 / 32, 13 / 40, 97 / 160]" by code_simp
  have b: "rotateOpacities (SpinnerB ?o) = [1, 1, 1, 1]" by code_simp
  from C7_reset_restores_initial [OF r, of 7] s show ?thesis unfolding a b by blast
qed

text \<open>
  Claim C9. Two calls of \<open>start()\<close> in a row leave two timers active. In widget B both
  intervals are registered, \<open>spinInterval\<close> holds the handle of the second, and \<open>stop()\<close>
  clears that one only: the first interval stays registered and still fires, and a second
  \<open>stop()\<close> changes nothing. In widget A two one-shot timers are pending; \<open>stop()\<close> cancels
  neither, and while the widget is running each one that fires schedules its successor, so
  two stay pending.
\<close>

theorem C9_second_start_leaks_timer:
  "intervals (startB (startB s)) (nextHandle s)
      = Some \<lparr>cl_count = length (spinLineModifiers s), cl_t = 0\<rparr>
   \<and> intervals (startB (startB s)) (Suc (nextHandle s))
      = Some \<lparr>cl_count = length (spinLineModifiers s), cl_t = 0\<rparr>
   \<and> spinInterval (startB (startB s)) = Some (Suc (nextHandle s))
   \<and> (\<exists>s'. stopB Undefined (startB (startB s)) = Inr s'
         \<and> intervals s' (Suc (nextHandle s)) = None
         \<and> intervals s' (nextHandle s)
              = Some \<lparr>cl_count = length (spinLineModifiers s), cl_t = 0\<rparr>
         \<and> tickB (nextHandle s) s' \<noteq> None
         \<and> stopB Undefined s' = Inr s')
   \<and> timeouts (startA (startA a)) = timeouts a + 2
   \<and> timeouts (stopA (startA (startA a))) = timeouts a + 2
   \<and> (reachableA a \<and> tickOpacityModifiers a \<noteq> [] \<longrightarrow>
        (\<exists>a'. fireA (startA (startA a)) = Some (Inr a')
           \<and> spinnerState a' = ON \<and> timeouts a' = timeouts a + 2))"
proof -
  let ?c = "\<lparr>cl_count = length (spinLineModifiers s), cl_t = 0\<rparr>"
  let ?s2 = "startB (startB s)"
  have b1: "intervals ?s2 (nextHandle s) = Some ?c"
    and b2: "intervals ?s2 (Suc (nextHandle s)) = Some ?c"
    and b3: "spinInterval ?s2 = Some (Suc (nextHandle s))"
    by (simp_all add: startB_def Let_def)
  let ?s' = "?s2\<lparr>intervals := (intervals ?s2)(Suc (nextHandle s) := None)\<rparr>"
  have st: "stopB Undefined ?s2 = Inr ?s'" by (simp add: stopB_Undefined b3)
  have "intervals ?s' (Suc (nextHandle s)) = None" by simp
  moreover have i: "intervals ?s' (nextHandle s) = Some ?c" using b1 by simp
  moreover have "tickB (nextHandle s) ?s' \<noteq> None"
    using i by (simp add: tickB_def)
  moreover have "stopB Undefined ?s' = Inr ?s'"
    by (simp add: stopB_Undefined b3)
  ultimately have b4: "\<exists>s'. stopB Undefined ?s2 = Inr s'
         \<and> intervals s' (Suc (nextHandle s)) = None
         \<and> intervals s' (nextHandle s) = Some ?c
         \<and> tickB (nextHandle s) s' \<noteq> None
         \<and> stopB Undefined s' = Inr s'"
    using st by blast
  have a1: "timeouts (startA (startA a)) = timeouts a + 2"
    and a2: "timeouts (stopA (startA (startA a))) = timeouts a + 2"
    by (simp_all add: startA_def stopA_def)
  have a3: "reachableA a \<and> tickOpacityModifiers a \<noteq> [] \<longrightarrow>
        (\<exists>a'. fireA (startA (startA a)) = Some (Inr a')
           \<and> spinnerState a' = ON \<and> timeouts a' = timeouts a + 2)"
  proof
    assume h: "reachableA a \<and> tickOpacityModifiers a \<noteq> []"
    let ?a = "startA (startA a)"
    have r: "reachableA ?a" using h by (intro reachableA.started) simp
    have t: "0 < timeouts ?a" by (simp add: startA_def)
    have ne: "tickOpacityModifiers ?a \<noteq> []" using h by (simp add: startA_def)
    have on: "spinnerState ?a = ON" by (simp add: startA_def)
    from fireA_reachable [OF r t ne] on a1
    show "\<exists>a'. fireA ?a = Some (Inr a') \<and> spinnerState a' = ON \<and> timeouts a' = timeouts a + 2"
      by auto
  qed
  show ?thesis using b1 b2 b3 b4 a1 a2 a3 by (intro conjI)
qed

text \<open>The theorem at widgets of four elements fresh from their constructors.\<close>

theorem C9_second_start_leaks_timer_witness:
  "reachableA (SpinnerA (Some (withTicks 4)))
   \<and> tickOpacityModifiers (SpinnerA (Some (withTicks 4))) \<noteq> []
   \<and> (\<exists>a'. fireA (startA (startA (SpinnerA (Some (withTicks 4))))) = Some (Inr a')
         \<and> spinnerState a' = ON \<and> timeouts a' = 2)
   \<and> (\<exists>s'. stopB Undefined (startB (startB (SpinnerB (DEFAULT_OPTIONS_B\<lparr>lines := 4\<rparr>)))) = Inr s'
         \<and> intervals s' 1 = None
         \<and> intervals s' 0 = Some \<lparr>cl_count = 4, cl_t = 0\<rparr>
         \<and> tickB 0 s' \<noteq> None)"
proof -
  let ?a = "SpinnerA (Some (withTicks 4))"
  let ?s = "SpinnerB (DEFAULT_OPTIONS_B\<lparr>lines := 4\<rparr>)"
  have r: "reachableA ?a" by (rule reachableA.constructed)
  have ne: "tickOpacityModifiers ?a \<noteq> []" by code_simp
  have t: "timeouts ?a = 0" by code_simp
  have h: "nextHandle ?s = 0" by code_simp
  have l: "length (spinLineModifiers ?s) = 4" by code_simp
  note inst = C9_second_start_leaks_timer [of ?s ?a, unfolded t h l]
  from inst obtain s' where s': "stopB Undefined (startB (startB ?s)) = Inr s'"
      "intervals s' (Suc 0) = None" "intervals s' 0 = Some \<lparr>cl_count = 4, cl_t = 0\<rparr>"
      "tickB 0 s' \<noteq> None"
    by (elim conjE exE) assumption
  from inst have "reachableA ?a \<and> tickOpacityModifiers ?a \<noteq> [] \<longrightarrow>
        (\<exists>a'. fireA (startA (startA ?a)) = Some (Inr a') \<and> spinnerState a' = ON
           \<and> timeouts a' = 0 + 2)"
    by (elim conjE) assumption
  with r ne obtain a' where a': "fireA (startA (startA ?a)) = Some (Inr a')"
      "spinnerState a' = ON" "timeouts a' = 2"
    by auto
  have "\<exists>a'. fireA (startA (startA ?a)) = Some (Inr a') \<and> spinnerState a' = ON \<and> timeouts a' = 2"
    using a' by blast
  moreover have "\<exists>s'. stopB Undefined (startB (startB ?s)) = Inr s'
         \<and> intervals s' 1 = None \<and> intervals s' 0 = Some \<lparr>cl_count = 4, cl_t = 0\<rparr>
         \<and> tickB 0 s' \<noteq> None"
    using s' by (intro exI [of _ s']) simp
  ultimately show ?thesis using r ne by (intro conjI)
qed

text \<open>
  Claim C10. In widget B, \<open>fade\<close> called with one argument takes it for the completion
  callback and animates over \<open>options.fadeDuration\<close>, which is 1000 by default; called with
  two arguments it animates over the first and takes the second for the callback. In both
  cases the animation to opacity 0 is queued behind whatever is pending on each rotation
  modifier, with the callback on the one of index 0.
\<close>

theorem C10_fade_one_argument:
  "(\<exists>s'. fade [cb] s = Inr s'
      \<and> map md_queue (rotateModifiers s')
          = map (\<lambda>i. md_queue (rotateModifiers s ! i) @
                   [\<lparr>tr_target = 0, tr_duration = Num (fadeDuration (optsB s)),
                     tr_curve = fadeCurve (optsB s),
                     tr_callback = (if i = 0 then StopWith cb else NoCallback)\<rparr>])
              [0..<length (rotateModifiers s)])
   \<and> fadeDuration DEFAULT_OPTIONS_B = 1000
   \<and> fadeDuration (optsB (SpinnerB DEFAULT_OPTIONS_B)) = 1000
   \<and> (\<exists>s'. fade [t, cb] s = Inr s'
      \<and> map md_queue (rotateModifiers s')
          = map (\<lambda>i. md_queue (rotateModifiers s ! i) @
                   [\<lparr>tr_target = 0, tr_duration = t, tr_curve = fadeCurve (optsB s),
                     tr_callback = (if i = 0 then StopWith cb else NoCallback)\<rparr>])
              [0..<length (rotateModifiers s)])"
proof -
  have one: "fadeArguments (optsB s) [cb] = (Num (fadeDuration (optsB s)), cb)"
    by (simp add: fadeArguments_def argument_def)
  have two: "fadeArguments (optsB s) [t, cb] = (t, cb)"
    by (simp add: fadeArguments_def argument_def)
  have d: "fadeDuration DEFAULT_OPTIONS_B = 1000" by (simp add: DEFAULT_OPTIONS_B_def)
  show ?thesis
    using fade_queues [of "[cb]" s] fade_queues [of "[t, cb]" s]
    unfolding one two by (auto simp: fadeTransition_def d SpinnerB_fields)
qed

text \<open>The theorem at the default widget.\<close>

theorem C10_fade_one_argument_witness:
  "(\<exists>s'. fade [Fn 7] (SpinnerB DEFAULT_OPTIONS_B) = Inr s'
      \<and> md_queue (rotateModifiers s' ! 0)
          = [\<lparr>tr_target = 0, tr_duration = Num 1000, tr_curve = ''easeOut'',
              tr_callback = StopWith (Fn 7)\<rparr>])
   \<and> (\<exists>s'. fade [Num 250, Fn 7] (SpinnerB DEFAULT_OPTIONS_B) = Inr s'
      \<and> md_queue (rotateModifiers s' ! 0)
          = [\<lparr>tr_target = 0, tr_duration = Num 250, tr_curve = ''easeOut'',
              tr_callback = StopWith (Fn 7)\<rparr>])"
proof -
  let ?s = "SpinnerB DEFAULT_OPTIONS_B"
  have l: "length (rotateModifiers ?s) = 12" by code_simp
  have q: "md_queue (rotateModifiers ?s ! 0) = []" by code_simp
  have o: "fadeDuration (optsB ?s) = 1000" "fadeCurve (optsB ?s) = ''easeOut''" by code_simp+
  have nth: "md_queue (ms ! 0) = map md_queue ms ! 0" if "length ms = 12" for ms :: "modifier list"
    using that by simp
  have len: "length ms = 12" if "map md_queue ms = map f [0..<12]" for ms :: "modifier list" and f
    using that by (metis length_map length_upt diff_zero)
  from C10_fade_one_argument [of "Fn 7" ?s "Num 250"]
  obtain s1 s2 where s1: "fade [Fn 7] ?s = Inr s1"
      "map md_queue (rotateModifiers s1)
          = map (\<lambda>i. md_queue (rotateModifiers ?s ! i) @
                   [\<lparr>tr_target = 0, tr_duration = Num 1000, tr_curve = ''easeOut'',
                     tr_callback = (if i = 0 then StopWith (Fn 7) else NoCallback)\<rparr>]) [0..<12]"
    and s2: "fade [Num 250, Fn 7] ?s = Inr s2"
      "map md_queue (rotateModifiers s2)
          = map (\<lambda>i. md_queue (rotateModifiers ?s ! i) @
                   [\<lparr>tr_target = 0, tr_duration = Num 250, tr_curve = ''easeOut'',
                     tr_callback = (if i = 0 then StopWith (Fn 7) else NoCallback)\<rparr>]) [0..<12]"
    unfolding l o by blast
  have "md_queue (rotateModifiers s1 ! 0)
          = [\<lparr>tr_target = 0, tr_duration = Num 1000, tr_curve = ''easeOut'',
              tr_callback = StopWith (Fn 7)\<rparr>]"
    using nth [OF len [OF s1(2)]] by (simp add: s1(2) q del: upt_Suc)
  moreover have "md_queue (rotateModifiers s2 ! 0)
          = [\<lparr>tr_target = 0, tr_duration = Num 250, tr_curve = ''easeOut'',
              tr_callback = StopWith (Fn 7)\<rparr>]"
    using nth [OF len [OF s2(2)]] by (simp add: s2(2) q del: upt_Suc)
  ultimately show ?thesis using s1(1) s2(1) by blast
qed

section \<open>Stopping\<close>

lemma ticksA_stopped:
  assumes "reachableA s" "spinnerState s = OFF" "tickOpacityModifiers s \<noteq> []" "n \<le> timeouts s"
  shows "\<exists>s'. ticksA n s = Some (Inr s') \<and> reachableA s'
           \<and> tickOpacityModifiers s' = rotate n (tickOpacityModifiers s)
           \<and> spinnerState s' = OFF \<and> timeouts s' = timeouts s - n"
  using assms
proof (induction n arbitrary: s)
  case 0
  then show ?case by simp
next
  case (Suc n)
  have t: "0 < timeouts s" using Suc.prems(4) by simp
  from fireA_reachable [OF Suc.prems(1) t Suc.prems(3)] Suc.prems(2)
  obtain s1 where s1: "fireA s = Some (Inr s1)"
      "tickOpacityModifiers s1 = rotate1 (tickOpacityModifiers s)"
      "spinnerState s1 = OFF" "timeouts s1 = timeouts s - 1"
    by auto
  have r1: "reachableA s1" using Suc.prems(1) s1(1) by (rule reachableA.fired)
  have ne: "tickOpacityModifiers s1 \<noteq> []" using Suc.prems(3) s1(2) by simp
  have n: "n \<le> timeouts s1" using Suc.prems(4) s1(4) by simp
  from Suc.IH [OF r1 s1(3) ne n]
  obtain s' where s': "ticksA n s1 = Some (Inr s')" "reachableA s'"
      "tickOpacityModifiers s' = rotate n (tickOpacityModifiers s1)"
      "spinnerState s' = OFF" "timeouts s' = timeouts s1 - n"
    by blast
  have "ticksA (Suc n) s = Some (Inr s')" by (simp add: s1(1) s'(1))
  moreover have "tickOpacityModifiers s' = rotate (Suc n) (tickOpacityModifiers s)"
    by (simp add: s'(3) s1(2) rotate1_rotate_swap)
  ultimately show ?case using s' s1(4) by simp
qed

text \<open>
  Claim C2, amended. \<open>stop()\<close> is idempotent in both widgets, and after it no tick is
  scheduled any more. In widget A the callbacks that were already scheduled are not
  cancelled: each still runs once after \<open>stop()\<close>, rotating the array and reassigning the
  opacities, but schedules no successor, so when the callbacks pending at the time of
  \<open>stop()\<close> have run, no timer is left and nothing can fire. In widget B \<open>stop()\<close> changes no
  opacity and clears the interval whose handle \<open>spinInterval\<close> holds: that interval does
  not fire again.
\<close>

theorem C2_stop_idempotent_no_reschedule:
  "stopA (stopA a) = stopA a
   \<and> (reachableA a \<and> tickOpacityModifiers a \<noteq> [] \<longrightarrow>
        (\<exists>a'. ticksA (timeouts a) (stopA a) = Some (Inr a')
           \<and> tickOpacityModifiers a' = rotate (timeouts a) (tickOpacityModifiers a)
           \<and> spinnerState a' = OFF \<and> timeouts a' = 0 \<and> fireA a' = None))
   \<and> (\<exists>s'. stopB Undefined s = Inr s' \<and> stopB Undefined s' = Inr s'
         \<and> displayedB s' = displayedB s \<and> rotateOpacities s' = rotateOpacities s
         \<and> (case spinInterval s of None \<Rightarrow> True | Some h \<Rightarrow> tickB h s' = None))"
proof -
  have a1: "stopA (stopA a) = stopA a" by (simp add: stopA_def)
  have a2: "reachableA a \<and> tickOpacityModifiers a \<noteq> [] \<longrightarrow>
        (\<exists>a'. ticksA (timeouts a) (stopA a) = Some (Inr a')
           \<and> tickOpacityModifiers a' = rotate (timeouts a) (tickOpacityModifiers a)
           \<and> spinnerState a' = OFF \<and> timeouts a' = 0 \<and> fireA a' = None)"
  proof
    assume h: "reachableA a \<and> tickOpacityModifiers a \<noteq> []"
    have r: "reachableA (stopA a)" using h by (intro reachableA.stopped) simp
    have off: "spinnerState (stopA a) = OFF" and ne: "tickOpacityModifiers (stopA a) \<noteq> []"
      and n: "timeouts a \<le> timeouts (stopA a)"
      using h by (simp_all add: stopA_def)
    from ticksA_stopped [OF r off ne n]
    obtain a' where a': "ticksA (timeouts a) (stopA a) = Some (Inr a')"
        "tickOpacityModifiers a' = rotate (timeouts a) (tickOpacityModifiers (stopA a))"
        "spinnerState a' = OFF" "timeouts a' = timeouts (stopA a) - timeouts a"
      by blast
    have "timeouts a' = 0" using a'(4) by (simp add: stopA_def)
    moreover from this have "fireA a' = None" by (simp add: fireA_def)
    moreover have "tickOpacityModifiers a' = rotate (timeouts a) (tickOpacityModifiers a)"
      using a'(2) by (simp add: stopA_def)
    ultimately show "\<exists>a'. ticksA (timeouts a) (stopA a) = Some (Inr a')
           \<and> tickOpacityModifiers a' = rotate (timeouts a) (tickOpacityModifiers a)
           \<and> spinnerState a' = OFF \<and> timeouts a' = 0 \<and> fireA a' = None"
      using a'(1,3) by blast
  qed
  let ?s' = "case spinInterval s of None \<Rightarrow> s
             | Some h \<Rightarrow> s\<lparr>intervals := (intervals s)(h := None)\<rparr>"
  have "stopB Undefined s = Inr ?s'" by (rule stopB_Undefined)
  moreover have "stopB Undefined ?s' = Inr ?s'"
    by (simp add: stopB_Undefined split: option.splits)
  moreover have "displayedB ?s' = displayedB s" "rotateOpacities ?s' = rotateOpacities s"
    by (simp_all add: displayedB_def rotateOpacities_def split: option.splits)
  moreover have "case spinInterval s of None \<Rightarrow> True | Some h \<Rightarrow> tickB h ?s' = None"
    by (simp add: tickB_def split: option.splits)
  ultimately have b: "\<exists>s'. stopB Undefined s = Inr s' \<and> stopB Undefined s' = Inr s'
         \<and> displayedB s' = displayedB s \<and> rotateOpacities s' = rotateOpacities s
         \<and> (case spinInterval s of None \<Rightarrow> True | Some h \<Rightarrow> tickB h s' = None)"
    by blast
  show ?thesis using a1 a2 b by (intro conjI)
qed

text \<open>The theorem at started widgets of four elements.\<close>

theorem C2_stop_idempotent_no_reschedule_witness:
  "reachableA (startA (SpinnerA (Some (withTicks 4))))
   \<and> tickOpacityModifiers (startA (SpinnerA (Some (withTicks 4)))) \<noteq> []
   \<and> (\<exists>a'. ticksA 1 (stopA (startA (SpinnerA (Some (withTicks 4))))) = Some (Inr a')
         \<and> tickOpacityModifiers a' = [1, 2, 3, 0] \<and> timeouts a' = 0 \<and> fireA a' = None)
   \<and> (\<exists>s'. stopB Undefined (startB (SpinnerB (DEFAULT_OPTIONS_B\<lparr>lines := 4\<rparr>))) = Inr s'
         \<and> stopB Undefined s' = Inr s' \<and> tickB 0 s' = None)"
proof -
  let ?a = "startA (SpinnerA (Some (withTicks 4)))"
  let ?s = "startB (SpinnerB (DEFAULT_OPTIONS_B\<lparr>lines := 4\<rparr>))"
  have r: "reachableA ?a" by (intro reachableA.intros)
  have ne: "tickOpacityModifiers ?a \<noteq> []" by code_simp
  have t: "timeouts ?a = 1" by code_simp
  have l: "rotate 1 (tickOpacityModifiers ?a) = [1, 2, 3, 0]" by code_simp
  have i: "spinInterval ?s = Some 0" by code_simp
  note inst = C2_stop_idempotent_no_reschedule [of ?a ?s, unfolded t l i]
  from inst have "reachableA ?a \<and> tickOpacityModifiers ?a \<noteq> [] \<longrightarrow>
        (\<exists>a'. ticksA 1 (stopA ?a) = Some (Inr a')
           \<and> tickOpacityModifiers a' = [1, 2, 3, 0]
           \<and> spinnerState a' = OFF \<and> timeouts a' = 0 \<and> fireA a' = None)"
    by (elim conjE) assumption
  with r ne have a: "\<exists>a'. ticksA 1 (stopA ?a) = Some (Inr a')
         \<and> tickOpacityModifiers a' = [1, 2, 3, 0] \<and> timeouts a' = 0 \<and> fireA a' = None"
    by blast
  from inst obtain s' where "stopB Undefined ?s = Inr s'" "stopB Undefined s' = Inr s'"
      "case Some 0 of None \<Rightarrow> True | Some h \<Rightarrow> tickB h s' = None"
    by (elim conjE exE) assumption
  then have b: "\<exists>s'. stopB Undefined ?s = Inr s' \<and> stopB Undefined s' = Inr s' \<and> tickB 0 s' = None"
    by (intro exI [of _ s']) simp
  show ?thesis using r ne a b by (intro conjI)
qed

text \<open>
  The claim as it is written fails on widget A with four ticks: the callback scheduled by
  \<open>start()\<close> fires after \<open>stop()\<close> has returned and changes the opacity of every element.
\<close>

theorem C2_counterexample:
  "displayedA (stopA (startA (SpinnerA (Some (withTicks 4)))))
     = [Some (1 / 10), Some (7 / 20), Some (3 / 5), Some (17 / 20)]
   \<and> map_option (map_sum id displayedA) (fireA (stopA (startA (SpinnerA (Some (withTicks 4))))))
     = Some (Inr [Some (17 / 20), Some (1 / 10), Some (7 / 20), Some (3 / 5)])
   \<and> map_option (map_sum id displayedA) (fireA (stopA (startA (SpinnerA (Some (withTicks 4))))))
     \<noteq> Some (Inr (displayedA (stopA (startA (SpinnerA (Some (withTicks 4)))))))"
  by code_simp

end
